theory Spec2Isabelle
  imports Main
begin

text \<open>
  A model of \<^verbatim>\<open>kupaldownloader.py\<close>: the functions behind the command line
  (\<^verbatim>\<open>get_device_info\<close>, \<^verbatim>\<open>connect_to_device\<close>, \<^verbatim>\<open>download_raw_data\<close>,
  \<^verbatim>\<open>save_as_json\<close>, \<^verbatim>\<open>upload_data_back\<close> and the command-line branch of
  \<^verbatim>\<open>main\<close>) as functions on an explicit state. An exception is a result \<open>Inl\<close>, a
  normal return a result \<open>Inr\<close>; every \<^verbatim>\<open>try\<close> of the source is a case distinction on
  such a result.
\<close>

section \<open>Python values, exceptions and the json module\<close>

text \<open>
  The program moves plain Python data around: dictionaries with string keys, lists,
  strings, integers and the opaque payload of a fingerprint template. A dictionary is an
  association list in insertion order (the order \<^verbatim>\<open>json.dump\<close> writes and
  \<^verbatim>\<open>json.load\<close> restores); lookups take the first binding of a key.
\<close>

datatype pyval =
    PNone
  | PBool bool
  | PInt int
  | PStr string
  | PBytes "nat list"
  | PList "pyval list"
  | PDict "(string \<times> pyval) list"

text \<open>
  Every \<^verbatim>\<open>except Exception\<close> of the source catches all of these. \<open>ZKError\<close>
  stands for whatever the device library raises on its own.
\<close>

datatype exn =
    KeyError string
  | TypeError
  | AttributeError
  | FileNotFoundError
  | JSONDecodeError
  | OSError
  | ZKError string

text \<open>\<^verbatim>\<open>v[k]\<close> with a string key: only a dictionary can be subscripted by a string.\<close>

fun py_getitem :: "pyval \<Rightarrow> string \<Rightarrow> exn + pyval" where
  "py_getitem (PDict kvs) k = (case map_of kvs k of Some v \<Rightarrow> Inr v | None \<Rightarrow> Inl (KeyError k))"
| "py_getitem v k = Inl TypeError"

text \<open>\<^verbatim>\<open>v.get(k, d)\<close>: only a dictionary has the method \<^verbatim>\<open>get\<close>.\<close>

fun py_get :: "pyval \<Rightarrow> string \<Rightarrow> pyval \<Rightarrow> exn + pyval" where
  "py_get (PDict kvs) k d = Inr (case map_of kvs k of Some v \<Rightarrow> v | None \<Rightarrow> d)"
| "py_get v k d = Inl AttributeError"

text \<open>\<^verbatim>\<open>len(v)\<close>.\<close>

fun py_len :: "pyval \<Rightarrow> exn + nat" where
  "py_len (PList xs) = Inr (length xs)"
| "py_len (PDict kvs) = Inr (length kvs)"
| "py_len (PStr s) = Inr (length s)"
| "py_len (PBytes b) = Inr (length b)"
| "py_len v = Inl TypeError"

text \<open>
  \<^verbatim>\<open>for item in v\<close>: a list yields its elements, a dictionary its keys, a string its
  characters, a bytes object its bytes.
\<close>

fun py_iter :: "pyval \<Rightarrow> exn + pyval list" where
  "py_iter (PList xs) = Inr xs"
| "py_iter (PDict kvs) = Inr (map (\<lambda>kv. PStr (fst kv)) kvs)"
| "py_iter (PStr s) = Inr (map (\<lambda>c. PStr [c]) s)"
| "py_iter (PBytes b) = Inr (map (\<lambda>n. PInt (int n)) b)"
| "py_iter v = Inl TypeError"

text \<open>
  What \<^verbatim>\<open>json.dump\<close> accepts: it raises \<^verbatim>\<open>TypeError\<close> on a bytes object,
  wherever it occurs in the value.
\<close>

fun json_serialisable :: "pyval \<Rightarrow> bool" where
  "json_serialisable (PBytes b) = False"
| "json_serialisable (PList xs) = (\<forall>x \<in> set xs. json_serialisable x)"
| "json_serialisable (PDict kvs) = (\<forall>kv \<in> set kvs. json_serialisable (snd kv))"
| "json_serialisable v = True"

text \<open>
  A file is represented by what a JSON parser makes of its text: the document it holds,
  or nothing when the text is not a complete JSON document (an empty or truncated file).
  That \<^verbatim>\<open>json.load\<close> returns the value \<^verbatim>\<open>json.dump\<close> wrote is the contract of
  the json module and is part of this representation.
\<close>

datatype file_content = Json_text pyval | Malformed_text

datatype mode = Read_mode | Write_mode

section \<open>The device collaborator\<close>

text \<open>
  The attributes of the device library's user and template objects that the program reads.
  The library's classes are outside the program. \<open>uid\<close> is the device's numeric
  identifier, the key the join compares with \<^verbatim>\<open>==\<close>; the other attributes are only
  copied into the export, so they may be any value, the template payload included (a
  bytes object or a string).
\<close>

record user =
  uid :: int
  user_id :: pyval
  name :: pyval
  privilege :: pyval
  password :: pyval
  group_id :: pyval

record template =
  uid :: int
  fid :: pyval
  size' :: pyval
  valid :: pyval
  template :: pyval

datatype call =
    Get_firmware_version
  | Get_serialnumber
  | Get_platform
  | Get_device_name
  | Get_user_count
  | Get_users
  | Get_templates
  | Set_user pyval pyval pyval pyval pyval pyval
  | Set_user_template pyval pyval pyval
  | Disconnect

datatype log_entry =
    Warn_device_info exn
  | Info_connecting string int
  | Info_connection_successful
  | Info_device_information
  | Info_device_field string pyval
  | Err_connection_failed exn
  | Info_found_users nat
  | Err_download_failed exn
  | Info_saved string
  | Err_save_failed exn
  | Info_preparing_upload nat
  | Warn_upload_failed pyval exn
  | Info_upload_completed
  | Err_upload_failed exn
  | Err_operation_failed exn

record datetime =
  year :: nat
  month :: nat
  day :: nat
  hour :: nat
  minute :: nat
  second :: nat
  microsecond :: nat

text \<open>
  Everything outside the program: how the device answers a call given the calls made
  before it, whether the connection can be opened, what the clock shows at each reading,
  and which paths the file system refuses to open for writing.
\<close>

record env =
  connect_reply :: "exn option"
  info_reply :: "call list \<Rightarrow> call \<Rightarrow> exn + pyval"
  users_reply :: "call list \<Rightarrow> exn + user list"
  templates_reply :: "call list \<Rightarrow> exn + template list"
  write_reply :: "call list \<Rightarrow> call \<Rightarrow> exn option"
  clock :: "nat \<Rightarrow> datetime"
  write_error :: "string \<Rightarrow> exn option"

text \<open>
  What the program changes: the calls it has made on the device, the log, the files, the
  \<^verbatim>\<open>open\<close> calls it has made and the number of clock readings.
\<close>

record world =
  calls :: "call list"
  log :: "log_entry list"
  files :: "string \<Rightarrow> file_content option"
  opens :: "(string \<times> mode) list"
  ticks :: nat

section \<open>get\_device\_info and connect\_to\_device\<close>

definition device_info_fields :: "(string \<times> call) list" where
  "device_info_fields =
     [(''firmware_version'', Get_firmware_version),
      (''serial_number'', Get_serialnumber),
      (''platform'', Get_platform),
      (''device_name'', Get_device_name),
      (''total_users'', Get_user_count)]"

text \<open>
  The dictionary display evaluates its values from top to bottom; the first call that
  raises abandons the display.
\<close>

fun read_fields :: "env \<Rightarrow> (string \<times> call) list \<Rightarrow> world \<Rightarrow> (exn + (string \<times> pyval) list) \<times> world" where
  "read_fields e [] w = (Inr [], w)"
| "read_fields e (kc # kcs) w =
     (case info_reply e (calls w) (snd kc) of
        Inl ex \<Rightarrow> (Inl ex, w\<lparr>calls := calls w @ [snd kc]\<rparr>)
      | Inr v \<Rightarrow>
          (case read_fields e kcs (w\<lparr>calls := calls w @ [snd kc]\<rparr>) of
             (Inl ex, w') \<Rightarrow> (Inl ex, w')
           | (Inr kvs, w') \<Rightarrow> (Inr ((fst kc, v) # kvs), w')))"

definition get_device_info :: "env \<Rightarrow> world \<Rightarrow> (string \<times> pyval) list \<times> world" where
  "get_device_info e w =
     (case read_fields e device_info_fields w of
        (Inr info, w') \<Rightarrow> (info, w')
      | (Inl ex, w') \<Rightarrow> ([], w'\<lparr>log := log w' @ [Warn_device_info ex]\<rparr>))"

text \<open>
  The log line for a field is kept as the key and the value it is formatted from.
\<close>

definition connect_to_device :: "env \<Rightarrow> string \<Rightarrow> int \<Rightarrow> world \<Rightarrow> (exn + unit) \<times> world" where
  "connect_to_device e ip_addr port_no w =
     (let w0 = w\<lparr>log := log w @ [Info_connecting ip_addr port_no]\<rparr> in
      case connect_reply e of
        Some ex \<Rightarrow> (Inl ex, w0\<lparr>log := log w0 @ [Err_connection_failed ex]\<rparr>)
      | None \<Rightarrow>
          (case get_device_info e w0 of
             (info, w1) \<Rightarrow>
               (Inr (), w1\<lparr>log := log w1 @ [Info_connection_successful, Info_device_information]
                                    @ map (\<lambda>kv. Info_device_field (fst kv) (snd kv)) info\<rparr>)))"

section \<open>download\_raw\_data\<close>

definition fingerprint_entry :: "template \<Rightarrow> pyval" where
  "fingerprint_entry t =
     PDict [(''fid'', fid t), (''size'', size' t), (''valid'', valid t),
            (''template'', template t)]"

definition user_data :: "user \<Rightarrow> pyval list \<Rightarrow> pyval" where
  "user_data u fps =
     PDict [(''uid'', PInt (user.uid u)), (''user_id'', user_id u), (''name'', name u),
            (''privilege'', privilege u), (''password'', password u),
            (''group_id'', group_id u), (''fingerprints'', PList fps)]"

text \<open>The inner loop: append an entry for every template whose \<open>uid\<close> is the user's.\<close>

fun append_matching :: "user \<Rightarrow> template list \<Rightarrow> pyval list \<Rightarrow> pyval list" where
  "append_matching u [] fps = fps"
| "append_matching u (t # ts) fps =
     append_matching u ts
       (if template.uid t = user.uid u then fps @ [fingerprint_entry t] else fps)"

text \<open>The outer loop: \<^verbatim>\<open>conn.get_templates()\<close> is called inside it, once per user.\<close>

fun download_users :: "env \<Rightarrow> user list \<Rightarrow> pyval list \<Rightarrow> world \<Rightarrow> (exn + pyval list) \<times> world" where
  "download_users e [] data w = (Inr data, w)"
| "download_users e (u # us) data w =
     (case templates_reply e (calls w) of
        Inl ex \<Rightarrow> (Inl ex, w\<lparr>calls := calls w @ [Get_templates]\<rparr>)
      | Inr ts \<Rightarrow>
          download_users e us (data @ [user_data u (append_matching u ts [])])
            (w\<lparr>calls := calls w @ [Get_templates]\<rparr>))"

definition download_raw_data :: "env \<Rightarrow> world \<Rightarrow> (exn + pyval list) \<times> world" where
  "download_raw_data e w =
     (case (case users_reply e (calls w) of
              Inl ex \<Rightarrow> (Inl ex, w\<lparr>calls := calls w @ [Get_users]\<rparr>)
            | Inr us \<Rightarrow>
                download_users e us []
                  (w\<lparr>calls := calls w @ [Get_users],
                      log := log w @ [Info_found_users (length us)]\<rparr>)) of
        (Inl ex, w') \<Rightarrow> (Inl ex, w'\<lparr>log := log w' @ [Err_download_failed ex]\<rparr>)
      | (Inr data, w') \<Rightarrow> (Inr data, w'))"

section \<open>save\_as\_json and loading a file\<close>

definition digit :: "nat \<Rightarrow> char" where
  "digit n = ''0123456789'' ! (n mod 10)"

definition pad2 :: "nat \<Rightarrow> string" where
  "pad2 n = [digit (n div 10), digit n]"

definition pad4 :: "nat \<Rightarrow> string" where
  "pad4 n = [digit (n div 1000), digit (n div 100), digit (n div 10), digit n]"

definition pad6 :: "nat \<Rightarrow> string" where
  "pad6 n = [digit (n div 100000), digit (n div 10000), digit (n div 1000),
             digit (n div 100), digit (n div 10), digit n]"

text \<open>The ranges Python guarantees for a \<^verbatim>\<open>datetime\<close> object.\<close>

definition valid_datetime :: "datetime \<Rightarrow> bool" where
  "valid_datetime d \<longleftrightarrow>
     1 \<le> year d \<and> year d \<le> 9999 \<and> 1 \<le> month d \<and> month d \<le> 12 \<and>
     1 \<le> day d \<and> day d \<le> 31 \<and> hour d < 24 \<and> minute d < 60 \<and> second d < 60 \<and>
     microsecond d < 1000000"

text \<open>\<^verbatim>\<open>strftime("%Y%m%d_%H%M%S")\<close>: zero-padded decimal fields.\<close>

definition strftime_stamp :: "datetime \<Rightarrow> string" where
  "strftime_stamp d =
     pad4 (year d) @ pad2 (month d) @ pad2 (day d) @ ''_'' @
     pad2 (hour d) @ pad2 (minute d) @ pad2 (second d)"

text \<open>\<^verbatim>\<open>isoformat()\<close>: the fraction is left out when the microsecond is 0.\<close>

definition isoformat :: "datetime \<Rightarrow> string" where
  "isoformat d =
     pad4 (year d) @ ''-'' @ pad2 (month d) @ ''-'' @ pad2 (day d) @ ''T'' @
     pad2 (hour d) @ '':'' @ pad2 (minute d) @ '':'' @ pad2 (second d) @
     (if microsecond d = 0 then [] else ''.'' @ pad6 (microsecond d))"

text \<open>
  \<^verbatim>\<open>s.replace(old, new)\<close> for a non-empty \<open>old\<close> (the program only replaces the
  literal \<^verbatim>\<open>.json\<close>): occurrences are replaced from the left and do not overlap.
\<close>

fun str_replace :: "string \<Rightarrow> string \<Rightarrow> string \<Rightarrow> string" where
  "str_replace [] old new = []"
| "str_replace (c # cs) old new =
     (if old \<noteq> [] \<and> take (length old) (c # cs) = old
      then new @ str_replace (drop (length old - 1) cs) old new
      else c # str_replace cs old new)"

definition stamped_filename :: "string \<Rightarrow> datetime \<Rightarrow> string" where
  "stamped_filename filename d =
     str_replace filename ''.json'' [] @ ''_'' @ strftime_stamp d @ ''.json''"

definition json_data :: "string \<Rightarrow> nat \<Rightarrow> pyval \<Rightarrow> pyval" where
  "json_data export_date n data =
     PDict [(''export_date'', PStr export_date), (''total_records'', PInt (int n)),
            (''fingerprints'', data)]"

text \<open>
  The body of the \<^verbatim>\<open>try\<close>. The clock is read twice, for the file name and for
  \<open>export_date\<close>. \<^verbatim>\<open>open(filename, 'w')\<close> creates or empties the file before anything
  is written; when building or dumping the envelope raises, the file is left behind
  without a complete document in it.
\<close>

definition save_steps :: "env \<Rightarrow> pyval \<Rightarrow> string \<Rightarrow> world \<Rightarrow> (exn + string) \<times> world" where
  "save_steps e data filename w =
     (let path = stamped_filename filename (clock e (ticks w));
          w1 = w\<lparr>ticks := ticks w + 1, opens := opens w @ [(path, Write_mode)]\<rparr> in
      case write_error e path of
        Some ex \<Rightarrow> (Inl ex, w1)
      | None \<Rightarrow>
          (let export_date = isoformat (clock e (ticks w1));
               w2 = w1\<lparr>ticks := ticks w1 + 1, files := (files w1)(path \<mapsto> Malformed_text)\<rparr> in
           case py_len data of
             Inl ex \<Rightarrow> (Inl ex, w2)
           | Inr n \<Rightarrow>
               (if json_serialisable (json_data export_date n data)
                then (Inr path,
                      w2\<lparr>files := (files w2)(path \<mapsto> Json_text (json_data export_date n data)),
                          log := log w2 @ [Info_saved path]\<rparr>)
                else (Inl TypeError, w2))))"

definition save_as_json :: "env \<Rightarrow> pyval \<Rightarrow> string \<Rightarrow> world \<Rightarrow> (exn + string) \<times> world" where
  "save_as_json e data filename w =
     (case save_steps e data filename w of
        (Inl ex, w') \<Rightarrow> (Inl ex, w'\<lparr>log := log w' @ [Err_save_failed ex]\<rparr>)
      | (Inr path, w') \<Rightarrow> (Inr path, w'))"

text \<open>
  \<^verbatim>\<open>with open(filename, 'r') as f: data = json.load(f)\<close>, as both front ends load an
  export.
\<close>

definition load_json :: "string \<Rightarrow> world \<Rightarrow> (exn + pyval) \<times> world" where
  "load_json filename w =
     (let w1 = w\<lparr>opens := opens w @ [(filename, Read_mode)]\<rparr> in
      case files w filename of
        None \<Rightarrow> (Inl FileNotFoundError, w1)
      | Some Malformed_text \<Rightarrow> (Inl JSONDecodeError, w1)
      | Some (Json_text v) \<Rightarrow> (Inr v, w1))"

section \<open>upload\_data\_back\<close>

text \<open>The three subscripts that are evaluated, in order, before the device is called.\<close>

definition template_args :: "pyval \<Rightarrow> exn + call" where
  "template_args item =
     (case py_getitem item ''user_id'' of
        Inl ex \<Rightarrow> Inl ex
      | Inr u \<Rightarrow>
          (case py_getitem item ''finger_id'' of
             Inl ex \<Rightarrow> Inl ex
           | Inr f \<Rightarrow>
               (case py_getitem item ''template'' of
                  Inl ex \<Rightarrow> Inl ex
                | Inr t \<Rightarrow> Inr (Set_user_template u f t))))"

text \<open>One pass of the loop body's \<^verbatim>\<open>try\<close>: the exception it raised, if any.\<close>

definition try_upload :: "env \<Rightarrow> pyval \<Rightarrow> world \<Rightarrow> exn option \<times> world" where
  "try_upload e item w =
     (case template_args item of
        Inl ex \<Rightarrow> (Some ex, w)
      | Inr c \<Rightarrow> (write_reply e (calls w) c, w\<lparr>calls := calls w @ [c]\<rparr>))"

text \<open>
  The loop. The handler formats \<^verbatim>\<open>item['user_id']\<close> again; when that subscript
  raises, the exception leaves the loop.
\<close>

fun upload_loop :: "env \<Rightarrow> pyval list \<Rightarrow> world \<Rightarrow> (exn + unit) \<times> world" where
  "upload_loop e [] w = (Inr (), w)"
| "upload_loop e (item # items) w =
     (case try_upload e item w of
        (None, w1) \<Rightarrow> upload_loop e items w1
      | (Some ex, w1) \<Rightarrow>
          (case py_getitem item ''user_id'' of
             Inl ex2 \<Rightarrow> (Inl ex2, w1)
           | Inr u \<Rightarrow> upload_loop e items (w1\<lparr>log := log w1 @ [Warn_upload_failed u ex]\<rparr>)))"

definition upload_steps :: "env \<Rightarrow> pyval \<Rightarrow> world \<Rightarrow> (exn + unit) \<times> world" where
  "upload_steps e data w =
     (case py_get data ''fingerprints'' data of
        Inl ex \<Rightarrow> (Inl ex, w)
      | Inr fingerprints \<Rightarrow>
          (case py_len fingerprints of
             Inl ex \<Rightarrow> (Inl ex, w)
           | Inr n \<Rightarrow>
               (case py_iter fingerprints of
                  Inl ex \<Rightarrow> (Inl ex, w\<lparr>log := log w @ [Info_preparing_upload n]\<rparr>)
                | Inr items \<Rightarrow>
                    (case upload_loop e items (w\<lparr>log := log w @ [Info_preparing_upload n]\<rparr>) of
                       (Inl ex, w') \<Rightarrow> (Inl ex, w')
                     | (Inr u, w') \<Rightarrow> (Inr (), w'\<lparr>log := log w' @ [Info_upload_completed]\<rparr>)))))"

definition upload_data_back :: "env \<Rightarrow> pyval \<Rightarrow> world \<Rightarrow> (exn + unit) \<times> world" where
  "upload_data_back e data w =
     (case upload_steps e data w of
        (Inl ex, w') \<Rightarrow> (Inl ex, w'\<lparr>log := log w' @ [Err_upload_failed ex]\<rparr>)
      | (Inr u, w') \<Rightarrow> (Inr (), w'))"

section \<open>The command line\<close>

datatype action = Download | Upload | Both

record args =
  ip :: string
  port :: int
  action :: action
  file' :: string

definition disconnect :: "env \<Rightarrow> world \<Rightarrow> (exn + unit) \<times> world" where
  "disconnect e w =
     (case write_reply e (calls w) Disconnect of
        Some ex \<Rightarrow> (Inl ex, w\<lparr>calls := calls w @ [Disconnect]\<rparr>)
      | None \<Rightarrow> (Inr (), w\<lparr>calls := calls w @ [Disconnect]\<rparr>))"

definition download_phase :: "env \<Rightarrow> args \<Rightarrow> world \<Rightarrow> (exn + unit) \<times> world" where
  "download_phase e a w =
     (if action a = Download \<or> action a = Both
      then (case download_raw_data e w of
              (Inl ex, w1) \<Rightarrow> (Inl ex, w1)
            | (Inr data, w1) \<Rightarrow>
                (case save_as_json e (PList data) (file' a) w1 of
                   (Inl ex, w2) \<Rightarrow> (Inl ex, w2)
                 | (Inr path, w2) \<Rightarrow> (Inr (), w2)))
      else (Inr (), w))"

definition upload_phase :: "env \<Rightarrow> args \<Rightarrow> world \<Rightarrow> (exn + unit) \<times> world" where
  "upload_phase e a w =
     (if action a = Upload \<or> action a = Both
      then (case load_json (file' a) w of
              (Inl ex, w1) \<Rightarrow> (Inl ex, w1)
            | (Inr data, w1) \<Rightarrow> upload_data_back e data w1)
      else (Inr (), w))"

definition cli_steps :: "env \<Rightarrow> args \<Rightarrow> world \<Rightarrow> (exn + unit) \<times> world" where
  "cli_steps e a w =
     (case connect_to_device e (ip a) (port a) w of
        (Inl ex, w1) \<Rightarrow> (Inl ex, w1)
      | (Inr u, w1) \<Rightarrow>
          (case download_phase e a w1 of
             (Inl ex, w2) \<Rightarrow> (Inl ex, w2)
           | (Inr u, w2) \<Rightarrow>
               (case upload_phase e a w2 of
                  (Inl ex, w3) \<Rightarrow> (Inl ex, w3)
                | (Inr u, w3) \<Rightarrow> disconnect e w3)))"

text \<open>The command-line branch of \<^verbatim>\<open>main\<close>: the exit code of the process.\<close>

definition main_cli :: "env \<Rightarrow> args \<Rightarrow> world \<Rightarrow> nat \<times> world" where
  "main_cli e a w =
     (case cli_steps e a w of
        (Inl ex, w') \<Rightarrow> (1, w'\<lparr>log := log w' @ [Err_operation_failed ex]\<rparr>)
      | (Inr u, w') \<Rightarrow> (0, w'))"

section \<open>Concrete devices and inputs\<close>

definition world0 :: world where
  "world0 = \<lparr>calls = [], log = [], files = Map.empty, opens = [], ticks = 0\<rparr>"

definition scenario_users :: "user list" where
  "scenario_users =
     [\<lparr>user.uid = 1, user_id = PStr ''101'', name = PStr ''Ana'', privilege = PInt 0,
        password = PStr '''', group_id = PStr ''''\<rparr>,
      \<lparr>user.uid = 2, user_id = PStr ''102'', name = PStr ''Ben'', privilege = PInt 0,
        password = PStr '''', group_id = PStr ''''\<rparr>,
      \<lparr>user.uid = 3, user_id = PStr ''103'', name = PStr ''Cy'', privilege = PInt 14,
        password = PStr ''1234'', group_id = PStr ''''\<rparr>]"

definition scenario_templates :: "template list" where
  "scenario_templates =
     [\<lparr>template.uid = 1, fid = PInt 0, size' = PInt 2, valid = PInt 1, template = PStr ''aa''\<rparr>,
      \<lparr>template.uid = 1, fid = PInt 1, size' = PInt 2, valid = PInt 1, template = PStr ''bb''\<rparr>,
      \<lparr>template.uid = 2, fid = PInt 0, size' = PInt 2, valid = PInt 1, template = PStr ''cc''\<rparr>]"

definition noon :: datetime where
  "noon = \<lparr>year = 2024, month = 3, day = 9, hour = 12, minute = 0, second = 5, microsecond = 0\<rparr>"

definition steady_device :: "user list \<Rightarrow> template list \<Rightarrow> env" where
  "steady_device us ts =
     \<lparr>connect_reply = None,
      info_reply = (\<lambda>tr c. Inr (PStr ''x'')),
      users_reply = (\<lambda>tr. Inr us),
      templates_reply = (\<lambda>tr. Inr ts),
      write_reply = (\<lambda>tr c. None),
      clock = (\<lambda>n. noon\<lparr>second := second noon + n\<rparr>),
      write_error = (\<lambda>p. None)\<rparr>"

definition flat_items :: "pyval list" where
  "flat_items =
     [PDict [(''user_id'', PStr ''101''), (''finger_id'', PInt 0), (''template'', PStr ''aa'')],
      PDict [(''user_id'', PStr ''102''), (''finger_id'', PInt 0), (''template'', PStr ''cc'')],
      PDict [(''user_id'', PStr ''103''), (''finger_id'', PInt 1), (''template'', PStr ''dd'')]]"

definition flat_calls :: "call list" where
  "flat_calls =
     [Set_user_template (PStr ''101'') (PInt 0) (PStr ''aa''),
      Set_user_template (PStr ''102'') (PInt 0) (PStr ''cc''),
      Set_user_template (PStr ''103'') (PInt 1) (PStr ''dd'')]"

text \<open>A device that rejects the call made after \<open>k\<close> earlier calls and accepts all others.\<close>

definition rejecting_device :: "nat \<Rightarrow> env" where
  "rejecting_device k =
     (steady_device [] [])
       \<lparr>write_reply := (\<lambda>tr c. if length tr = k then Some (ZKError ''rejected'') else None)\<rparr>"

definition scenario_record :: pyval where
  "scenario_record =
     user_data (scenario_users ! 0)
       [fingerprint_entry (scenario_templates ! 0), fingerprint_entry (scenario_templates ! 1)]"

text \<open>
  The write sequence in the words of the specification, to compare the code with: for
  each record, write the user, then each finger template of the record.
\<close>

definition spec_field :: "pyval \<Rightarrow> string \<Rightarrow> pyval" where
  "spec_field r k = (case py_getitem r k of Inr v \<Rightarrow> v | Inl ex \<Rightarrow> PNone)"

definition spec_record_writes :: "pyval \<Rightarrow> call list" where
  "spec_record_writes r =
     Set_user (spec_field r ''uid'') (spec_field r ''name'') (spec_field r ''privilege'')
              (spec_field r ''password'') (spec_field r ''group_id'') (spec_field r ''user_id'')
     # map (\<lambda>f. Set_user_template (spec_field r ''user_id'') (spec_field f ''fid'')
                                     (spec_field f ''template''))
           (case py_getitem r ''fingerprints'' of Inr (PList fs) \<Rightarrow> fs | _ \<Rightarrow> [])"

definition spec_upload_writes :: "pyval list \<Rightarrow> call list" where
  "spec_upload_writes rs = concat (map spec_record_writes rs)"

text \<open>A device that reports its firmware version and times out on every other query.\<close>

definition fading_device :: env where
  "fading_device =
     (steady_device [] [])
       \<lparr>info_reply := (\<lambda>tr c. if c = Get_firmware_version then Inr (PStr ''Ver 6.60'')
                               else Inl (ZKError ''timeout''))\<rparr>"

text \<open>Two clock readings name the same second when they agree in every field down to it.\<close>

definition same_second :: "datetime \<Rightarrow> datetime \<Rightarrow> bool" where
  "same_second d1 d2 \<longleftrightarrow>
     year d1 = year d2 \<and> month d1 = month d2 \<and> day d1 = day d2 \<and>
     hour d1 = hour d2 \<and> minute d1 = minute d2 \<and> second d1 = second d2"

text \<open>A user's record whose template payload is a bytes object.\<close>

definition bytes_record :: pyval where
  "bytes_record =
     user_data (scenario_users ! 0)
       [fingerprint_entry \<lparr>template.uid = 1, fid = PInt 0, size' = PInt 3, valid = PInt 1,
                           template = PBytes [74, 83, 5]\<rparr>]"

definition both_args :: args where
  "both_args = \<lparr>ip = ''192.168.1.201'', port = 4370, action = Both, file' = ''fingerprint_data''\<rparr>"

definition flat_args :: "(pyval \<times> pyval \<times> pyval) list" where
  "flat_args =
     [(PStr ''101'', PInt 0, PStr ''aa''), (PStr ''102'', PInt 0, PStr ''cc''),
      (PStr ''103'', PInt 1, PStr ''dd'')]"

text \<open>Three records, the last of which has no \<open>user_id\<close>.\<close>

definition nameless_last_items :: "pyval list" where
  "nameless_last_items =
     [PDict [(''user_id'', PStr ''101''), (''finger_id'', PInt 0), (''template'', PStr ''aa'')],
      PDict [(''user_id'', PStr ''102''), (''finger_id'', PInt 0), (''template'', PStr ''cc'')],
      PDict [(''finger_id'', PInt 1), (''template'', PStr ''dd'')]]"

text \<open>A device whose clock stands still.\<close>

definition stopped_clock_device :: env where
  "stopped_clock_device = (steady_device [] [])\<lparr>clock := (\<lambda>n. noon)\<rparr>"

section \<open>The join of download\_raw\_data\<close>

lemma append_matching_filter:
  "append_matching u ts fps =
     fps @ map fingerprint_entry (filter (\<lambda>t. template.uid t = user.uid u) ts)"
  by (induction ts arbitrary: fps) simp_all

lemma upt_shift_map: "map f [0..<Suc n] = f 0 # map (\<lambda>k. f (Suc k)) [0..<n]"
  by (simp only: upt_conv_Cons [OF zero_less_Suc] list.map map_Suc_upt [symmetric] map_map comp_def)

lemma download_users_ok:
  "\<forall>k<length us. templates_reply e (calls w @ replicate k Get_templates) = Inr (tss k) \<Longrightarrow>
   download_users e us data w =
     (Inr (data @ map (\<lambda>k. user_data (us ! k) (append_matching (us ! k) (tss k) []))
                    [0..<length us]),
      w\<lparr>calls := calls w @ replicate (length us) Get_templates\<rparr>)"
proof (induction us arbitrary: data w tss)
  case Nil
  then show ?case by simp
next
  case (Cons u us)
  from Cons.prems have h0: "templates_reply e (calls w) = Inr (tss 0)"
    by auto
  let ?w1 = "w\<lparr>calls := calls w @ [Get_templates]\<rparr>"
  have "\<forall>k<length us. templates_reply e (calls ?w1 @ replicate k Get_templates) = Inr (tss (Suc k))"
  proof (intro allI impI)
    fix k assume "k < length us"
    then have "templates_reply e (calls w @ replicate (Suc k) Get_templates) = Inr (tss (Suc k))"
      using Cons.prems by auto
    then show "templates_reply e (calls ?w1 @ replicate k Get_templates) = Inr (tss (Suc k))"
      by simp
  qed
  from Cons.IH [OF this] h0 show ?case
    by (simp add: upt_shift_map replicate_append_same del: upt_Suc)
qed

lemma download_users_calls:
  "\<exists>k\<le>length us. calls (snd (download_users e us data w)) = calls w @ replicate k Get_templates
      \<and> (\<forall>recs. fst (download_users e us data w) = Inr recs \<longrightarrow> k = length us)"
proof (induction us arbitrary: data w)
  case Nil
  then show ?case by simp
next
  case (Cons u us)
  show ?case
  proof (cases "templates_reply e (calls w)")
    case (Inl ex)
    then show ?thesis by (auto intro!: exI [of _ "Suc 0"])
  next
    case (Inr ts)
    let ?w1 = "w\<lparr>calls := calls w @ [Get_templates]\<rparr>"
    let ?data = "data @ [user_data u (append_matching u ts [])]"
    from Cons.IH [of ?data ?w1]
    obtain k where "k \<le> length us"
      and "calls (snd (download_users e us ?data ?w1)) = calls ?w1 @ replicate k Get_templates"
      and "\<forall>recs. fst (download_users e us ?data ?w1) = Inr recs \<longrightarrow> k = length us"
      by blast
    with Inr show ?thesis
      by (auto intro!: exI [of _ "Suc k"])
  qed
qed

lemma download_raw_data_ok:
  assumes "users_reply e (calls w) = Inr us"
    and "\<forall>k<length us. templates_reply e (calls w @ Get_users # replicate k Get_templates) = Inr (tss k)"
  shows "download_raw_data e w =
     (Inr (map (\<lambda>k. user_data (us ! k)
                  (map fingerprint_entry (filter (\<lambda>t. template.uid t = user.uid (us ! k)) (tss k))))
            [0..<length us]),
      w\<lparr>calls := calls w @ Get_users # replicate (length us) Get_templates,
         log := log w @ [Info_found_users (length us)]\<rparr>)"
proof -
  let ?w1 = "w\<lparr>calls := calls w @ [Get_users], log := log w @ [Info_found_users (length us)]\<rparr>"
  have "\<forall>k<length us. templates_reply e (calls ?w1 @ replicate k Get_templates) = Inr (tss k)"
    using assms(2) by simp
  from download_users_ok [OF this, of "[]"] assms(1) show ?thesis
    by (simp add: download_raw_data_def append_matching_filter)
qed

text \<open>
  Claim C1. When the device returns the user list \<open>us\<close> and answers every template
  fetch with the list \<open>ts\<close>, the download returns one record per user, in order. The
  record of a user is the dictionary of the user's attributes, and under its key
  \<open>fingerprints\<close> it holds, in the device's order, one entry with \<open>fid\<close>, \<open>size\<close>, \<open>valid\<close>
  and \<open>template\<close> for each template whose \<open>uid\<close> is the user's, and nothing else. A user
  without such a template gets the empty list, and a template whose \<open>uid\<close> is no user's
  is attached nowhere: every list is what it would be had the device not listed that
  template.
\<close>

theorem download_raw_data_join:
  assumes "users_reply e (calls w) = Inr us"
    and "\<forall>tr. templates_reply e tr = Inr ts"
  shows "\<exists>recs w'. download_raw_data e w = (Inr recs, w') \<and> length recs = length us \<and>
    (\<forall>i<length us.
       recs ! i =
         PDict [(''uid'', PInt (user.uid (us ! i))), (''user_id'', user_id (us ! i)),
                (''name'', name (us ! i)), (''privilege'', privilege (us ! i)),
                (''password'', password (us ! i)), (''group_id'', group_id (us ! i)),
                (''fingerprints'',
                   PList (map (\<lambda>t. PDict [(''fid'', fid t), (''size'', size' t),
                                            (''valid'', valid t), (''template'', template t)])
                            (filter (\<lambda>t. template.uid t = user.uid (us ! i)) ts)))] \<and>
       py_getitem (recs ! i) ''fingerprints'' =
         Inr (PList (map (\<lambda>t. PDict [(''fid'', fid t), (''size'', size' t),
                                       (''valid'', valid t), (''template'', template t)])
                       (filter (\<lambda>t. template.uid t = user.uid (us ! i)) ts))) \<and>
       ((\<forall>t\<in>set ts. template.uid t \<noteq> user.uid (us ! i)) \<longrightarrow>
          py_getitem (recs ! i) ''fingerprints'' = Inr (PList [])) \<and>
       (\<forall>t\<in>set ts. (\<forall>u\<in>set us. user.uid u \<noteq> template.uid t) \<longrightarrow>
          py_getitem (recs ! i) ''fingerprints'' =
            Inr (PList (map (\<lambda>t. PDict [(''fid'', fid t), (''size'', size' t),
                                          (''valid'', valid t), (''template'', template t)])
                          (filter (\<lambda>t'. template.uid t' = user.uid (us ! i))
                             (removeAll t ts))))))"
proof -
  let ?entry = "\<lambda>t. PDict [(''fid'', fid t), (''size'', size' t), (''valid'', valid t),
                          (''template'', template t)]"
  let ?join = "\<lambda>u. map ?entry (filter (\<lambda>t. template.uid t = user.uid u) ts)"
  let ?rec = "\<lambda>u. PDict [(''uid'', PInt (user.uid u)), (''user_id'', user_id u),
                (''name'', name u), (''privilege'', privilege u),
                (''password'', password u), (''group_id'', group_id u),
                (''fingerprints'', PList (?join u))]"
  let ?recs = "map (\<lambda>k. ?rec (us ! k)) [0..<length us]"
  have run: "download_raw_data e w =
      (Inr ?recs, w\<lparr>calls := calls w @ Get_users # replicate (length us) Get_templates,
                     log := log w @ [Info_found_users (length us)]\<rparr>)"
    using download_raw_data_ok [of e w us "\<lambda>k. ts"] assms
    by (simp add: user_data_def fingerprint_entry_def)
  have none: "filter (\<lambda>t. template.uid t = user.uid u) ts = []"
    if "\<forall>t\<in>set ts. template.uid t \<noteq> user.uid u" for u
    using that by (simp add: filter_empty_conv)
  have orphan: "filter (\<lambda>t'. template.uid t' = user.uid u) (removeAll t ts) =
                filter (\<lambda>t'. template.uid t' = user.uid u) ts"
    if "user.uid u \<noteq> template.uid t" for u t
    using that by (induction ts) auto
  have each: "?recs ! i = ?rec (us ! i) \<and>
       py_getitem (?recs ! i) ''fingerprints'' = Inr (PList (?join (us ! i))) \<and>
       ((\<forall>t\<in>set ts. template.uid t \<noteq> user.uid (us ! i)) \<longrightarrow>
          py_getitem (?recs ! i) ''fingerprints'' = Inr (PList [])) \<and>
       (\<forall>t\<in>set ts. (\<forall>u\<in>set us. user.uid u \<noteq> template.uid t) \<longrightarrow>
          py_getitem (?recs ! i) ''fingerprints'' =
            Inr (PList (map ?entry (filter (\<lambda>t'. template.uid t' = user.uid (us ! i))
                                      (removeAll t ts)))))"
    if "i < length us" for i
  proof -
    from that have mem: "us ! i \<in> set us" by simp
    from that have at: "?recs ! i = ?rec (us ! i)" by simp
    then have fp: "py_getitem (?recs ! i) ''fingerprints'' = Inr (PList (?join (us ! i)))"
      by simp
    have "py_getitem (?recs ! i) ''fingerprints'' = Inr (PList [])"
      if "\<forall>t\<in>set ts. template.uid t \<noteq> user.uid (us ! i)"
      using fp none [OF that] by simp
    moreover have "py_getitem (?recs ! i) ''fingerprints'' =
            Inr (PList (map ?entry (filter (\<lambda>t'. template.uid t' = user.uid (us ! i))
                                      (removeAll t ts))))"
      if "\<forall>u\<in>set us. user.uid u \<noteq> template.uid t" for t
      using fp orphan [of "us ! i" t] that mem by simp
    ultimately show ?thesis using at fp by blast
  qed
  show ?thesis
    by (intro exI conjI, rule run, simp) (use each in blast)
qed

text \<open>
  The scenario of the specification: users 1, 2, 3 and templates (1, 0), (1, 1), (2, 0).
  User 3 gets an empty list and user 1 exactly the two templates of \<open>uid\<close> 1.
\<close>

theorem download_raw_data_join_witness:
  "py_getitem
     (projr (fst (download_raw_data (steady_device scenario_users scenario_templates) world0)) ! 2)
     ''fingerprints'' = Inr (PList []) \<and>
   py_getitem
     (projr (fst (download_raw_data (steady_device scenario_users scenario_templates) world0)) ! 0)
     ''fingerprints'' =
     Inr (PList [PDict [(''fid'', PInt 0), (''size'', PInt 2), (''valid'', PInt 1),
                        (''template'', PStr ''aa'')],
                 PDict [(''fid'', PInt 1), (''size'', PInt 2), (''valid'', PInt 1),
                        (''template'', PStr ''bb'')]]) \<and>
   py_getitem
     (projr (fst (download_raw_data (steady_device scenario_users scenario_templates) world0)) ! 0)
     ''uid'' = Inr (PInt 1) \<and>
   py_getitem
     (projr (fst (download_raw_data (steady_device scenario_users scenario_templates) world0)) ! 2)
     ''uid'' = Inr (PInt 3)"
proof -
  let ?e = "steady_device scenario_users scenario_templates"
  let ?entry = "\<lambda>t. PDict [(''fid'', fid t), (''size'', size' t), (''valid'', valid t),
                          (''template'', template t)]"
  have u: "users_reply ?e (calls world0) = Inr scenario_users"
    by (simp add: steady_device_def)
  have t: "\<forall>tr. templates_reply ?e tr = Inr scenario_templates"
    by (simp add: steady_device_def)
  from download_raw_data_join [OF u t] obtain recs w' where
    run: "download_raw_data ?e world0 = (Inr recs, w')" and
    each: "\<forall>i<length scenario_users.
       recs ! i =
         PDict [(''uid'', PInt (user.uid (scenario_users ! i))),
                (''user_id'', user_id (scenario_users ! i)),
                (''name'', name (scenario_users ! i)),
                (''privilege'', privilege (scenario_users ! i)),
                (''password'', password (scenario_users ! i)),
                (''group_id'', group_id (scenario_users ! i)),
                (''fingerprints'',
                   PList (map ?entry
                            (filter (\<lambda>t. template.uid t = user.uid (scenario_users ! i))
                               scenario_templates)))]"
    by blast
  have "recs ! 2 = PDict [(''uid'', PInt 3), (''user_id'', PStr ''103''), (''name'', PStr ''Cy''),
      (''privilege'', PInt 14), (''password'', PStr ''1234''), (''group_id'', PStr ''''),
      (''fingerprints'', PList [])]"
    using each [rule_format, of 2] by (simp add: scenario_users_def scenario_templates_def)
  moreover have "recs ! 0 = PDict [(''uid'', PInt 1), (''user_id'', PStr ''101''),
      (''name'', PStr ''Ana''), (''privilege'', PInt 0), (''password'', PStr ''''),
      (''group_id'', PStr ''''),
      (''fingerprints'',
         PList [PDict [(''fid'', PInt 0), (''size'', PInt 2), (''valid'', PInt 1),
                       (''template'', PStr ''aa'')],
                PDict [(''fid'', PInt 1), (''size'', PInt 2), (''valid'', PInt 1),
                       (''template'', PStr ''bb'')]])]"
    using each [rule_format, of 0] by (simp add: scenario_users_def scenario_templates_def)
  ultimately show ?thesis using run by simp
qed

section \<open>How often the device is asked\<close>

text \<open>
  Claim C6, as the code has it. The user list is fetched once. The template list is
  fetched inside the loop over the users, once for each of them: a download that returns
  has made \<open>1 + length us\<close> list calls, and one that stops early has stopped at a
  template fetch that raised.
\<close>

theorem download_raw_data_fetches_per_user:
  assumes "users_reply e (calls w) = Inr us"
  shows "\<exists>k\<le>length us.
           calls (snd (download_raw_data e w)) = calls w @ Get_users # replicate k Get_templates \<and>
           (\<forall>recs. fst (download_raw_data e w) = Inr recs \<longrightarrow> k = length us)"
proof -
  let ?w1 = "w\<lparr>calls := calls w @ [Get_users], log := log w @ [Info_found_users (length us)]\<rparr>"
  obtain k where k: "k \<le> length us"
    and c: "calls (snd (download_users e us [] ?w1)) = calls ?w1 @ replicate k Get_templates"
    and r: "\<forall>recs. fst (download_users e us [] ?w1) = Inr recs \<longrightarrow> k = length us"
    using download_users_calls [of us e "[]" ?w1] by blast
  obtain r' w' where run: "download_users e us [] ?w1 = (r', w')"
    by (cases "download_users e us [] ?w1")
  have "calls (snd (download_raw_data e w)) = calls w @ Get_users # replicate k Get_templates"
    using assms c run by (cases r') (simp_all add: download_raw_data_def)
  moreover have "\<forall>recs. fst (download_raw_data e w) = Inr recs \<longrightarrow> k = length us"
    using assms r run by (cases r') (simp_all add: download_raw_data_def)
  ultimately show ?thesis using k by blast
qed

text \<open>With the three users of the scenario the template list is fetched three times.\<close>

theorem download_raw_data_fetches_per_user_witness:
  "calls (snd (download_raw_data (steady_device scenario_users scenario_templates) world0))
     = [Get_users, Get_templates, Get_templates, Get_templates]"
proof -
  let ?e = "steady_device scenario_users scenario_templates"
  have u: "users_reply ?e (calls world0) = Inr scenario_users"
    by (simp add: steady_device_def)
  have ok: "\<exists>recs. fst (download_raw_data ?e world0) = Inr recs"
    by (simp add: download_raw_data_def steady_device_def scenario_users_def world0_def)
  from download_raw_data_fetches_per_user [OF u] ok show ?thesis
    by (auto simp: scenario_users_def world0_def numeral_3_eq_3)
qed

text \<open>
  So the download does not make exactly two list calls with a single template fetch.
\<close>

theorem download_two_list_calls_counterexample:
  "\<not> (count_list (calls (snd (download_raw_data (steady_device scenario_users scenario_templates) world0)))
          Get_templates = 1 \<and>
       length (calls (snd (download_raw_data (steady_device scenario_users scenario_templates) world0))) = 2)"
  by (simp add: download_raw_data_def steady_device_def scenario_users_def world0_def)

section \<open>What upload\_data\_back writes\<close>

lemma template_args_user_id:
  "template_args item = Inr c \<Longrightarrow> \<exists>u. py_getitem item ''user_id'' = Inr u"
  by (auto simp: template_args_def split: sum.splits)

lemma upload_loop_all_accepted:
  "map template_args items = map Inr cs \<Longrightarrow>
   \<forall>j<length cs. write_reply e (calls w @ take j cs) (cs ! j) = None \<Longrightarrow>
   upload_loop e items w = (Inr (), w\<lparr>calls := calls w @ cs\<rparr>)"
proof (induction items arbitrary: cs w)
  case Nil
  then show ?case by simp
next
  case (Cons item items)
  then obtain c cs' where cs: "cs = c # cs'" and c: "template_args item = Inr c"
    and rest: "map template_args items = map Inr cs'"
    by (cases cs) auto
  from Cons.prems(2) cs have first: "write_reply e (calls w) c = None"
    by auto
  let ?w1 = "w\<lparr>calls := calls w @ [c]\<rparr>"
  have "\<forall>j<length cs'. write_reply e (calls ?w1 @ take j cs') (cs' ! j) = None"
  proof (intro allI impI)
    fix j assume "j < length cs'"
    then have "write_reply e (calls w @ take (Suc j) cs) (cs ! Suc j) = None"
      using Cons.prems(2) cs by auto
    then show "write_reply e (calls ?w1 @ take j cs') (cs' ! j) = None"
      using cs by simp
  qed
  from Cons.IH [OF rest this] c first cs show ?case
    by (simp add: try_upload_def)
qed

lemma upload_loop_one_rejected:
  "map template_args items = map Inr cs \<Longrightarrow>
   k < length items \<Longrightarrow>
   py_getitem (items ! k) ''user_id'' = Inr u \<Longrightarrow>
   \<forall>j<length cs. write_reply e (calls w @ take j cs) (cs ! j) = (if j = k then Some ex else None) \<Longrightarrow>
   upload_loop e items w =
     (Inr (), w\<lparr>calls := calls w @ cs, log := log w @ [Warn_upload_failed u ex]\<rparr>)"
proof (induction items arbitrary: cs w k)
  case Nil
  then show ?case by simp
next
  case (Cons item items)
  then obtain c cs' where cs: "cs = c # cs'" and c: "template_args item = Inr c"
    and rest: "map template_args items = map Inr cs'"
    by (cases cs) auto
  let ?w1 = "w\<lparr>calls := calls w @ [c]\<rparr>"
  have shift: "write_reply e (calls ?w1 @ take j cs') (cs' ! j) =
               (if Suc j = k then Some ex else None)" if "j < length cs'" for j
  proof -
    from that have "write_reply e (calls w @ take (Suc j) cs) (cs ! Suc j) =
               (if Suc j = k then Some ex else None)"
      using Cons.prems(4) cs by auto
    then show ?thesis using cs by simp
  qed
  show ?case
  proof (cases k)
    case 0
    with Cons.prems(4) cs have first: "write_reply e (calls w) c = Some ex"
      by auto
    from 0 Cons.prems(3) have u: "py_getitem item ''user_id'' = Inr u"
      by simp
    let ?w2 = "?w1\<lparr>log := log ?w1 @ [Warn_upload_failed u ex]\<rparr>"
    have "\<forall>j<length cs'. write_reply e (calls ?w2 @ take j cs') (cs' ! j) = None"
      using shift 0 by simp
    from upload_loop_all_accepted [OF rest this] c first u cs show ?thesis
      by (simp add: try_upload_def)
  next
    case (Suc k')
    with Cons.prems(4) cs have first: "write_reply e (calls w) c = None"
      by auto
    from Suc Cons.prems have k': "k' < length items" and u: "py_getitem (items ! k') ''user_id'' = Inr u"
      by simp_all
    have "\<forall>j<length cs'. write_reply e (calls ?w1 @ take j cs') (cs' ! j) =
               (if j = k' then Some ex else None)"
      using shift Suc by simp
    from Cons.IH [OF rest k' u this] c first cs show ?thesis
      by (simp add: try_upload_def)
  qed
qed

lemma upload_loop_calls:
  "map template_args items = map Inr cs \<Longrightarrow>
   fst (upload_loop e items w) = Inr () \<and> calls (snd (upload_loop e items w)) = calls w @ cs"
proof (induction items arbitrary: cs w)
  case Nil
  then show ?case by simp
next
  case (Cons item items)
  then obtain c cs' where cs: "cs = c # cs'" and c: "template_args item = Inr c"
    and rest: "map template_args items = map Inr cs'"
    by (cases cs) auto
  from template_args_user_id [OF c] obtain u where u: "py_getitem item ''user_id'' = Inr u" ..
  show ?case
  proof (cases "write_reply e (calls w) c")
    case None
    with Cons.IH [OF rest, of "w\<lparr>calls := calls w @ [c]\<rparr>"] c cs show ?thesis
      by (simp add: try_upload_def)
  next
    case (Some ex)
    with Cons.IH [OF rest, of "w\<lparr>calls := calls w @ [c], log := log w @ [Warn_upload_failed u ex]\<rparr>"]
      c cs u show ?thesis
      by (simp add: try_upload_def)
  qed
qed

text \<open>
  Claim C2, as the code has it. For records passed under the \<open>fingerprints\<close> key that
  carry the keys \<open>user_id\<close>, \<open>finger_id\<close> and \<open>template\<close>, the upload makes exactly
  one device call per record, in order: \<open>set_user_template\<close> with these three values. It
  makes it whatever the device answers, writes no user record and returns normally.
\<close>

theorem upload_data_back_one_call_per_record:
  assumes "py_get data ''fingerprints'' data = Inr (PList items)"
    and "map template_args items = map Inr cs"
  shows "fst (upload_data_back e data w) = Inr () \<and>
         calls (snd (upload_data_back e data w)) = calls w @ cs \<and>
         (\<forall>c\<in>set cs. \<exists>u f t. c = Set_user_template u f t)"
proof -
  let ?w1 = "w\<lparr>log := log w @ [Info_preparing_upload (length items)]\<rparr>"
  obtain r w' where run: "upload_loop e items ?w1 = (r, w')"
    by (cases "upload_loop e items ?w1")
  with upload_loop_calls [OF assms(2), of e ?w1] have "r = Inr ()" and "calls w' = calls w @ cs"
    by simp_all
  with run assms(1) have "fst (upload_data_back e data w) = Inr ()"
    and "calls (snd (upload_data_back e data w)) = calls w @ cs"
    by (simp_all add: upload_data_back_def upload_steps_def)
  moreover have "\<exists>u f t. c = Set_user_template u f t" if "c \<in> set cs" for c
  proof -
    from that have "Inr c \<in> set (map template_args items)"
      using assms(2) by simp
    then obtain item where "template_args item = Inr c" by auto
    then show ?thesis
      by (auto simp: template_args_def split: sum.splits)
  qed
  ultimately show ?thesis by blast
qed

text \<open>Three such records, on a device that rejects the first write.\<close>

theorem upload_data_back_one_call_per_record_witness:
  "fst (upload_data_back (rejecting_device 0) (PDict [(''fingerprints'', PList flat_items)]) world0)
     = Inr () \<and>
   calls (snd (upload_data_back (rejecting_device 0) (PDict [(''fingerprints'', PList flat_items)])
                 world0)) = flat_calls"
proof -
  let ?data = "PDict [(''fingerprints'', PList flat_items)]"
  have a: "py_get ?data ''fingerprints'' ?data = Inr (PList flat_items)"
    by simp
  have b: "map template_args flat_items = map Inr flat_calls"
    by (simp add: flat_items_def flat_calls_def template_args_def)
  from upload_data_back_one_call_per_record [OF a b, of "rejecting_device 0" world0] show ?thesis
    by (simp add: world0_def)
qed

text \<open>
  For a record as the download builds it, with two templates, the writes are not the
  user followed by its two templates.
\<close>

theorem upload_writes_user_then_templates_counterexample:
  "calls (snd (upload_data_back (steady_device [] [])
                 (json_data (isoformat noon) 1 (PList [scenario_record])) world0))
     \<noteq> spec_upload_writes [scenario_record]"
  by (simp add: upload_data_back_def upload_steps_def json_data_def scenario_record_def
      user_data_def try_upload_def template_args_def world0_def spec_upload_writes_def
      spec_record_writes_def split: prod.splits)

lemma template_args_explicit:
  assumes "py_getitem item ''user_id'' = Inr u"
    and "py_getitem item ''finger_id'' = Inr f"
    and "py_getitem item ''template'' = Inr t"
  shows "template_args item = Inr (Set_user_template u f t)"
  using assms by (simp add: template_args_def)

lemma map_template_args_explicit:
  "map (\<lambda>item. (py_getitem item ''user_id'', py_getitem item ''finger_id'',
                  py_getitem item ''template'')) items
     = map (\<lambda>(u, f, t). (Inr u, Inr f, Inr t)) args \<Longrightarrow>
   map template_args items = map Inr (map (\<lambda>(u, f, t). Set_user_template u f t) args)"
proof (induction items arbitrary: args)
  case Nil
  then show ?case by simp
next
  case (Cons item items)
  then obtain a args' where args: "args = a # args'"
    by (cases args) auto
  obtain u f t where a: "a = (u, f, t)"
    by (cases a)
  from Cons.prems args a have keys: "py_getitem item ''user_id'' = Inr u"
    "py_getitem item ''finger_id'' = Inr f" "py_getitem item ''template'' = Inr t"
    and rest: "map (\<lambda>item. (py_getitem item ''user_id'', py_getitem item ''finger_id'',
                  py_getitem item ''template'')) items
     = map (\<lambda>(u, f, t). (Inr u, Inr f, Inr t)) args'"
    by simp_all
  from Cons.IH [OF rest] template_args_explicit [OF keys] args a show ?case
    by simp
qed

text \<open>
  Claim C4, as the code has it. Let \<open>N\<close> records be passed under the \<open>fingerprints\<close> key,
  each with the keys \<open>user_id\<close>, \<open>finger_id\<close> and \<open>template\<close>, and let the device reject
  the write for record \<open>k\<close> and accept the others. The upload attempts all \<open>N\<close> writes in
  order, each a \<open>set_user_template\<close> of the record's three values, logs exactly one
  warning, with the \<open>user_id\<close> of record \<open>k\<close> and the exception the device raised, and
  returns normally.
\<close>

theorem upload_data_back_tolerates_one_failure:
  assumes "py_get data ''fingerprints'' data = Inr (PList items)"
    and "map (\<lambda>item. (py_getitem item ''user_id'', py_getitem item ''finger_id'',
                       py_getitem item ''template'')) items
           = map (\<lambda>(u, f, t). (Inr u, Inr f, Inr t)) args"
    and "cs = map (\<lambda>(u, f, t). Set_user_template u f t) args"
    and "k < length args"
    and "\<forall>j<length args.
           write_reply e (calls w @ take j cs) (cs ! j) = (if j = k then Some ex else None)"
  shows "upload_data_back e data w =
     (Inr (), w\<lparr>calls := calls w @ cs,
                 log := log w @ [Info_preparing_upload (length args),
                                 Warn_upload_failed (fst (args ! k)) ex,
                                 Info_upload_completed]\<rparr>)"
proof -
  from assms(2) have len: "length items = length args"
    by (rule map_eq_imp_length_eq)
  from map_template_args_explicit [OF assms(2)] assms(3)
  have cs: "map template_args items = map Inr cs"
    by simp
  from assms(3) have lcs: "length cs = length args" by simp
  from assms(4) len have k: "k < length items" by simp
  from assms(2) assms(4)
  have "(py_getitem (items ! k) ''user_id'', py_getitem (items ! k) ''finger_id'',
         py_getitem (items ! k) ''template'')
        = (\<lambda>(u, f, t). (Inr u, Inr f, Inr t)) (args ! k)"
    using k by (metis (no_types, lifting) nth_map)
  then have u: "py_getitem (items ! k) ''user_id'' = Inr (fst (args ! k))"
    by (cases "args ! k") simp
  let ?w1 = "w\<lparr>log := log w @ [Info_preparing_upload (length items)]\<rparr>"
  have "\<forall>j<length cs. write_reply e (calls ?w1 @ take j cs) (cs ! j) = (if j = k then Some ex else None)"
    using assms(5) lcs by simp
  from upload_loop_one_rejected [OF cs k u this] assms(1) len show ?thesis
    by (simp add: upload_data_back_def upload_steps_def)
qed

text \<open>Three records, the second of which the device rejects.\<close>

theorem upload_data_back_tolerates_one_failure_witness:
  "upload_data_back (rejecting_device 1) (PDict [(''fingerprints'', PList flat_items)]) world0 =
     (Inr (), world0\<lparr>calls := [Set_user_template (PStr ''101'') (PInt 0) (PStr ''aa''),
                                Set_user_template (PStr ''102'') (PInt 0) (PStr ''cc''),
                                Set_user_template (PStr ''103'') (PInt 1) (PStr ''dd'')],
                      log := [Info_preparing_upload 3,
                              Warn_upload_failed (PStr ''102'') (ZKError ''rejected''),
                              Info_upload_completed]\<rparr>)"
proof -
  let ?data = "PDict [(''fingerprints'', PList flat_items)]"
  have a: "py_get ?data ''fingerprints'' ?data = Inr (PList flat_items)"
    by simp
  have b: "map (\<lambda>item. (py_getitem item ''user_id'', py_getitem item ''finger_id'',
                       py_getitem item ''template'')) flat_items
           = map (\<lambda>(u, f, t). (Inr u, Inr f, Inr t)) flat_args"
    by (simp add: flat_items_def flat_args_def)
  have c: "flat_calls = map (\<lambda>(u, f, t). Set_user_template u f t) flat_args"
    by (simp add: flat_calls_def flat_args_def)
  have d: "1 < length flat_args"
    by (simp add: flat_args_def)
  have e: "\<forall>j<length flat_args.
             write_reply (rejecting_device 1) (calls world0 @ take j flat_calls) (flat_calls ! j) =
             (if j = 1 then Some (ZKError ''rejected'') else None)"
    by (auto simp: rejecting_device_def world0_def flat_calls_def flat_args_def)
  from upload_data_back_tolerates_one_failure [OF a b c d e] show ?thesis
    by (simp add: world0_def flat_args_def flat_calls_def)
qed

text \<open>
  The same three records as a bare list: the upload raises before any write is attempted.
  And under the \<open>fingerprints\<close> key, with a third record that has no \<open>user_id\<close>: the
  second write is rejected and logged, and the third record makes the whole upload raise.
\<close>

theorem upload_partial_failure_counterexample:
  "fst (upload_data_back (rejecting_device 1) (PList flat_items) world0) = Inl AttributeError \<and>
   calls (snd (upload_data_back (rejecting_device 1) (PList flat_items) world0)) = [] \<and>
   fst (upload_data_back (rejecting_device 1)
          (PDict [(''fingerprints'', PList nameless_last_items)]) world0)
     = Inl (KeyError ''user_id'')"
  by (simp add: upload_data_back_def upload_steps_def world0_def flat_items_def
      nameless_last_items_def try_upload_def template_args_def rejecting_device_def
      steady_device_def)

text \<open>
  Claim C5. Given the bare array, \<^verbatim>\<open>data.get\<close> raises \<^verbatim>\<open>AttributeError\<close>, since a
  list has no such method: the upload logs the error and raises it again without a single
  write. Given the same array under the \<open>fingerprints\<close> key, it writes every record.
\<close>

theorem upload_bare_array_raises:
  "upload_data_back (steady_device [] []) (PList flat_items) world0 =
     (Inl AttributeError, world0\<lparr>log := [Err_upload_failed AttributeError]\<rparr>) \<and>
   calls (snd (upload_data_back (steady_device [] []) (PList flat_items) world0)) = [] \<and>
   calls (snd (upload_data_back (steady_device [] []) (PDict [(''fingerprints'', PList flat_items)])
                 world0)) = flat_calls"
  by (simp add: upload_data_back_def upload_steps_def world0_def flat_items_def flat_calls_def
      try_upload_def template_args_def steady_device_def)

section \<open>Uploading what was downloaded\<close>

lemma download_users_shape:
  "download_users e us data w = (Inr recs, w') \<Longrightarrow>
   \<exists>fpss. length fpss = length us \<and> recs = data @ map2 user_data us fpss"
proof (induction us arbitrary: data w)
  case Nil
  then show ?case by simp
next
  case (Cons u us)
  then obtain ts where ts: "templates_reply e (calls w) = Inr ts"
    by (cases "templates_reply e (calls w)") auto
  let ?fps = "append_matching u ts []"
  from Cons.prems ts have "download_users e us (data @ [user_data u ?fps])
     (w\<lparr>calls := calls w @ [Get_templates]\<rparr>) = (Inr recs, w')"
    by simp
  from Cons.IH [OF this] obtain fpss where "length fpss = length us"
    and "recs = (data @ [user_data u ?fps]) @ map2 user_data us fpss"
    by blast
  then have "length (?fps # fpss) = length (u # us) \<and>
             recs = data @ map2 user_data (u # us) (?fps # fpss)"
    by simp
  then show ?case by blast
qed

lemma download_raw_data_shape:
  assumes "users_reply e (calls w) = Inr us" and "download_raw_data e w = (Inr recs, w')"
  shows "\<exists>fpss. length fpss = length us \<and> recs = map2 user_data us fpss"
proof -
  let ?w1 = "w\<lparr>calls := calls w @ [Get_users], log := log w @ [Info_found_users (length us)]\<rparr>"
  obtain r w1 where run: "download_users e us [] ?w1 = (r, w1)"
    by (cases "download_users e us [] ?w1")
  with assms have "r = Inr recs"
    by (cases r) (simp_all add: download_raw_data_def)
  with run download_users_shape [of e us "[]" ?w1 recs w1] show ?thesis
    by simp
qed

lemma template_args_user_data:
  "template_args (user_data u fps) = Inl (KeyError ''finger_id'')"
  by (simp add: template_args_def user_data_def)

lemma user_id_user_data:
  "py_getitem (user_data u fps) ''user_id'' = Inr (user_id u)"
  by (simp add: user_data_def)

lemma upload_loop_exported:
  "length fpss = length us \<Longrightarrow>
   upload_loop e (map2 user_data us fpss) w =
     (Inr (), w\<lparr>log := log w @
        map (\<lambda>u. Warn_upload_failed (user_id u) (KeyError ''finger_id'')) us\<rparr>)"
proof (induction us arbitrary: fpss w)
  case Nil
  then show ?case by simp
next
  case (Cons u us)
  then obtain fps fpss' where fpss: "fpss = fps # fpss'" and len: "length fpss' = length us"
    by (cases fpss) auto
  from Cons.IH [OF len] fpss show ?case
    by (simp add: try_upload_def template_args_user_data user_id_user_data)
qed

text \<open>
  Claim C9. The download stores a finger index under \<open>fid\<close> inside the list
  \<open>fingerprints\<close> of a user's record; the upload reads \<open>finger_id\<close> and \<open>template\<close>
  off the record itself. So for the records of any download, wrapped in the envelope that
  \<open>save_as_json\<close> builds, the upload makes no device call at all: for every record the
  subscript \<open>finger_id\<close> raises \<^verbatim>\<open>KeyError\<close>, which is caught and logged with the
  record's \<open>user_id\<close>, and the upload returns normally.
\<close>

theorem upload_of_download_writes_nothing:
  assumes "users_reply e (calls w) = Inr us"
    and "download_raw_data e w = (Inr recs, w1)"
  shows "upload_data_back e' (json_data export_date n (PList recs)) w2 =
     (Inr (), w2\<lparr>log := log w2 @ [Info_preparing_upload (length us)]
                     @ map (\<lambda>u. Warn_upload_failed (user_id u) (KeyError ''finger_id'')) us
                     @ [Info_upload_completed]\<rparr>)
     \<and> calls (snd (upload_data_back e' (json_data export_date n (PList recs)) w2)) = calls w2"
proof -
  from download_raw_data_shape [OF assms] obtain fpss
    where len: "length fpss = length us" and recs: "recs = map2 user_data us fpss"
    by blast
  have "upload_data_back e' (json_data export_date n (PList recs)) w2 =
     (Inr (), w2\<lparr>log := log w2 @ [Info_preparing_upload (length us)]
                     @ map (\<lambda>u. Warn_upload_failed (user_id u) (KeyError ''finger_id'')) us
                     @ [Info_upload_completed]\<rparr>)"
    using upload_loop_exported [OF len, of e' "w2\<lparr>log := log w2 @ [Info_preparing_upload (length us)]\<rparr>"]
      len recs
    by (simp add: upload_data_back_def upload_steps_def json_data_def)
  then show ?thesis by simp
qed

text \<open>The three users of the scenario: three warnings, no write.\<close>

theorem upload_of_download_writes_nothing_witness:
  "upload_data_back (steady_device scenario_users scenario_templates)
     (json_data (isoformat noon) 3
        (PList (projr (fst (download_raw_data (steady_device scenario_users scenario_templates) world0)))))
     world0 =
   (Inr (), world0\<lparr>log := [Info_preparing_upload 3,
                           Warn_upload_failed (PStr ''101'') (KeyError ''finger_id''),
                           Warn_upload_failed (PStr ''102'') (KeyError ''finger_id''),
                           Warn_upload_failed (PStr ''103'') (KeyError ''finger_id''),
                           Info_upload_completed]\<rparr>)"
proof -
  let ?e = "steady_device scenario_users scenario_templates"
  have u: "users_reply ?e (calls world0) = Inr scenario_users"
    by (simp add: steady_device_def)
  have "\<forall>k<length scenario_users.
          templates_reply ?e (calls world0 @ Get_users # replicate k Get_templates)
            = Inr scenario_templates"
    by (simp add: steady_device_def)
  from download_raw_data_ok [OF u this] obtain recs w1
    where run: "download_raw_data ?e world0 = (Inr recs, w1)"
    by blast
  from upload_of_download_writes_nothing [OF u run, of ?e "isoformat noon" 3 world0] run
  show ?thesis
    by (simp add: scenario_users_def world0_def)
qed

section \<open>Device information\<close>

lemma read_fields_first_failure:
  "k < length kcs \<Longrightarrow>
   \<forall>j<k. \<exists>v. info_reply e (calls w @ map snd (take j kcs)) (snd (kcs ! j)) = Inr v \<Longrightarrow>
   info_reply e (calls w @ map snd (take k kcs)) (snd (kcs ! k)) = Inl ex \<Longrightarrow>
   read_fields e kcs w = (Inl ex, w\<lparr>calls := calls w @ map snd (take (Suc k) kcs)\<rparr>)"
proof (induction kcs arbitrary: w k)
  case Nil
  then show ?case by simp
next
  case (Cons kc kcs)
  show ?case
  proof (cases k)
    case 0
    with Cons.prems show ?thesis by simp
  next
    case (Suc k')
    from Cons.prems(2) Suc obtain v where v: "info_reply e (calls w) (snd kc) = Inr v"
      by fastforce
    let ?w1 = "w\<lparr>calls := calls w @ [snd kc]\<rparr>"
    have a: "k' < length kcs" using Cons.prems(1) Suc by simp
    have b: "\<forall>j<k'. \<exists>v. info_reply e (calls ?w1 @ map snd (take j kcs)) (snd (kcs ! j)) = Inr v"
    proof (intro allI impI)
      fix j assume "j < k'"
      then have "Suc j < k" using Suc by simp
      with Cons.prems(2) have "\<exists>v. info_reply e (calls w @ map snd (take (Suc j) (kc # kcs)))
                                  (snd ((kc # kcs) ! Suc j)) = Inr v"
        by blast
      then show "\<exists>v. info_reply e (calls ?w1 @ map snd (take j kcs)) (snd (kcs ! j)) = Inr v"
        by simp
    qed
    have c: "info_reply e (calls ?w1 @ map snd (take k' kcs)) (snd (kcs ! k')) = Inl ex"
      using Cons.prems(3) Suc by simp
    from Cons.IH [OF a b c] v Suc show ?thesis by simp
  qed
qed

lemma read_fields_result:
  "read_fields e kcs w = (r, w') \<Longrightarrow>
   log w' = log w \<and> (\<forall>kvs. r = Inr kvs \<longrightarrow> map fst kvs = map fst kcs)"
proof (induction kcs arbitrary: w r w')
  case Nil
  then show ?case by auto
next
  case (Cons kc kcs)
  show ?case
  proof (cases "info_reply e (calls w) (snd kc)")
    case (Inl ex)
    with Cons.prems show ?thesis by auto
  next
    case (Inr v)
    obtain r1 w1 where run: "read_fields e kcs (w\<lparr>calls := calls w @ [snd kc]\<rparr>) = (r1, w1)"
      by (cases "read_fields e kcs (w\<lparr>calls := calls w @ [snd kc]\<rparr>)")
    from Cons.IH [OF run] have "log w1 = log w"
      and "\<forall>kvs. r1 = Inr kvs \<longrightarrow> map fst kvs = map fst kcs"
      by simp_all
    with Cons.prems Inr run show ?thesis
      by (cases r1) auto
  qed
qed

text \<open>Without a failure the five keys are returned and nothing is logged.\<close>

lemma get_device_info_all_or_nothing:
  "(fst (get_device_info e w) = [] \<and>
      (\<exists>ex. log (snd (get_device_info e w)) = log w @ [Warn_device_info ex])) \<or>
   (map fst (fst (get_device_info e w)) = map fst device_info_fields \<and>
      log (snd (get_device_info e w)) = log w)"
proof -
  obtain r w' where run: "read_fields e device_info_fields w = (r, w')"
    by (cases "read_fields e device_info_fields w")
  from read_fields_result [OF run] run show ?thesis
    by (cases r) (auto simp: get_device_info_def)
qed

text \<open>
  Claim C8, as the code has it. Reading the device information never raises. When the
  read of the field at position \<open>k\<close> raises after the fields before it were read, the
  result is the empty dictionary: the values already read are dropped, the fields after
  \<open>k\<close> are not asked for, and one warning with the exception is logged.
\<close>

theorem get_device_info_field_failure:
  assumes "k < length device_info_fields"
    and "\<forall>j<k. \<exists>v. info_reply e (calls w @ map snd (take j device_info_fields))
                       (snd (device_info_fields ! j)) = Inr v"
    and "info_reply e (calls w @ map snd (take k device_info_fields))
           (snd (device_info_fields ! k)) = Inl ex"
  shows "get_device_info e w =
           ([], w\<lparr>calls := calls w @ map snd (take (Suc k) device_info_fields),
                   log := log w @ [Warn_device_info ex]\<rparr>)"
  using read_fields_first_failure [OF assms] by (simp add: get_device_info_def)

text \<open>The firmware version is read, the serial number times out.\<close>

theorem get_device_info_field_failure_witness:
  "get_device_info fading_device world0 =
     ([], world0\<lparr>calls := [Get_firmware_version, Get_serialnumber],
                  log := [Warn_device_info (ZKError ''timeout'')]\<rparr>)"
proof -
  have a: "1 < length device_info_fields"
    by (simp add: device_info_fields_def)
  have b: "\<forall>j<1. \<exists>v. info_reply fading_device (calls world0 @ map snd (take j device_info_fields))
                       (snd (device_info_fields ! j)) = Inr v"
    by (simp add: fading_device_def device_info_fields_def)
  have c: "info_reply fading_device (calls world0 @ map snd (take 1 device_info_fields))
           (snd (device_info_fields ! 1)) = Inl (ZKError ''timeout'')"
    by (simp add: fading_device_def device_info_fields_def)
  from get_device_info_field_failure [OF a b c] show ?thesis
    by (simp add: device_info_fields_def world0_def)
qed

text \<open>
  The firmware version was read successfully and is not in the result.
\<close>

theorem get_device_info_partial_counterexample:
  "info_reply fading_device (calls world0) Get_firmware_version = Inr (PStr ''Ver 6.60'') \<and>
   map_of (fst (get_device_info fading_device world0)) ''firmware_version'' \<noteq> Some (PStr ''Ver 6.60'')"
  by (simp add: get_device_info_def device_info_fields_def fading_device_def world0_def)

section \<open>Time stamps and file names\<close>

lemma digit_eq_iff: "digit a = digit b \<longleftrightarrow> a mod 10 = b mod 10"
proof -
  have d: "distinct ''0123456789''" by simp
  have "a mod 10 < length ''0123456789''" and "b mod 10 < length ''0123456789''"
    by simp_all
  with d show ?thesis
    unfolding digit_def by (rule nth_eq_iff_index_eq)
qed

lemma digit_in_digits: "digit n \<in> set ''0123456789''"
proof -
  have "n mod 10 < length ''0123456789''" by simp
  then show ?thesis unfolding digit_def by (rule nth_mem)
qed

lemma div_mod_10_eq: "(x::nat) div 10 = y div 10 \<Longrightarrow> x mod 10 = y mod 10 \<Longrightarrow> x = y"
  by (metis div_mult_mod_eq)

lemma pad2_inj:
  assumes "a < 100" and "b < 100" and "pad2 a = pad2 b"
  shows "a = b"
proof -
  from assms(3) have hi: "a div 10 mod 10 = b div 10 mod 10" and lo: "a mod 10 = b mod 10"
    by (simp_all add: pad2_def digit_eq_iff)
  from assms(1,2) have "a div 10 < 10" and "b div 10 < 10" by simp_all
  with hi have "a div 10 = b div 10" by simp
  then show ?thesis using lo by (rule div_mod_10_eq)
qed

lemma pad4_inj:
  assumes "a < 10000" and "b < 10000" and "pad4 a = pad4 b"
  shows "a = b"
proof -
  from assms(3) have d3: "a div 1000 mod 10 = b div 1000 mod 10"
    and d2: "a div 100 mod 10 = b div 100 mod 10"
    and d1: "a div 10 mod 10 = b div 10 mod 10"
    and d0: "a mod 10 = b mod 10"
    by (simp_all add: pad4_def digit_eq_iff)
  from assms(1,2) have "a div 1000 < 10" and "b div 1000 < 10" by simp_all
  with d3 have "a div 1000 = b div 1000" by simp
  then have "a div 100 div 10 = b div 100 div 10"
    by (simp add: div_mult2_eq [symmetric])
  then have "a div 100 = b div 100" using d2 by (rule div_mod_10_eq)
  then have "a div 10 div 10 = b div 10 div 10"
    by (simp add: div_mult2_eq [symmetric])
  then have "a div 10 = b div 10" using d1 by (rule div_mod_10_eq)
  then show ?thesis using d0 by (rule div_mod_10_eq)
qed

lemma length_strftime_stamp: "length (strftime_stamp d) = 15"
  by (simp add: strftime_stamp_def pad2_def pad4_def)

lemma strftime_stamp_form:
  "strftime_stamp d = (pad4 (year d) @ pad2 (month d) @ pad2 (day d)) @ ''_'' @
                      (pad2 (hour d) @ pad2 (minute d) @ pad2 (second d)) \<and>
   length (pad4 (year d) @ pad2 (month d) @ pad2 (day d)) = 8 \<and>
   length (pad2 (hour d) @ pad2 (minute d) @ pad2 (second d)) = 6 \<and>
   set (pad4 (year d) @ pad2 (month d) @ pad2 (day d)) \<subseteq> set ''0123456789'' \<and>
   set (pad2 (hour d) @ pad2 (minute d) @ pad2 (second d)) \<subseteq> set ''0123456789''"
  using digit_in_digits by (simp add: strftime_stamp_def pad2_def pad4_def)

lemma strftime_stamp_inj:
  assumes "valid_datetime d1" and "valid_datetime d2"
    and "strftime_stamp d1 = strftime_stamp d2"
  shows "year d1 = year d2 \<and> month d1 = month d2 \<and> day d1 = day d2 \<and>
         hour d1 = hour d2 \<and> minute d1 = minute d2 \<and> second d1 = second d2"
proof -
  from assms(3) have "pad4 (year d1) = pad4 (year d2)" "pad2 (month d1) = pad2 (month d2)"
    "pad2 (day d1) = pad2 (day d2)" "pad2 (hour d1) = pad2 (hour d2)"
    "pad2 (minute d1) = pad2 (minute d2)" "pad2 (second d1) = pad2 (second d2)"
    by (simp_all add: strftime_stamp_def pad2_def pad4_def)
  moreover from assms(1,2) have "year d1 < 10000" "year d2 < 10000" "month d1 < 100"
    "month d2 < 100" "day d1 < 100" "day d2 < 100" "hour d1 < 100" "hour d2 < 100"
    "minute d1 < 100" "minute d2 < 100" "second d1 < 100" "second d2 < 100"
    by (simp_all add: valid_datetime_def)
  ultimately show ?thesis
    by (intro conjI) (erule (2) pad4_inj pad2_inj)+
qed

lemma length_str_replace:
  "\<exists>k. length s = length (str_replace s old []) + k * length old"
proof (induction s old "[] :: string" rule: str_replace.induct)
  case (1 old)
  show ?case by simp
next
  case (2 c cs old)
  show ?case
  proof (cases "old \<noteq> [] \<and> take (length old) (c # cs) = old")
    case True
    have step: "str_replace (c # cs) old [] = [] @ str_replace (drop (length old - 1) cs) old []"
      by (simp only: str_replace.simps if_P [OF True])
    from True have "take (length old) (c # cs) = old" ..
    then have "length (take (length old) (c # cs)) = length old"
      by (rule arg_cong)
    then have len: "length old \<le> Suc (length cs)"
      by simp
    from True have "old \<noteq> []" ..
    then obtain n where n: "length old = Suc n"
      by (cases old) simp_all
    from 2(1) [OF True] obtain k
      where k: "length (drop (length old - 1) cs) =
             length (str_replace (drop (length old - 1) cs) old []) + k * length old"
      by blast
    have "length (c # cs) = length (drop (length old - 1) cs) + length old"
      using len n by simp
    with k step have "length (c # cs) = length (str_replace (c # cs) old []) + Suc k * length old"
      by simp
    then show ?thesis by blast
  next
    case False
    have step: "str_replace (c # cs) old [] = c # str_replace cs old []"
      by (simp only: str_replace.simps if_not_P [OF False])
    from 2(2) [OF False] obtain k
      where "length cs = length (str_replace cs old []) + k * length old"
      by blast
    with step have "length (c # cs) = length (str_replace (c # cs) old []) + k * length old"
      by simp
    then show ?thesis by blast
  qed
qed

lemma stamped_filename_neq: "stamped_filename filename d \<noteq> filename"
proof
  assume eq: "stamped_filename filename d = filename"
  obtain k where k: "length filename =
      length (str_replace filename ''.json'' []) + k * length ''.json''"
    using length_str_replace [of filename "''.json''"] by blast
  from eq have "length (stamped_filename filename d) = length filename"
    by (rule arg_cong)
  then have "length (str_replace filename ''.json'' []) + 21 = length filename"
    by (simp add: stamped_filename_def length_strftime_stamp)
  with k have "k * 5 = 21" by simp
  then show False by presburger
qed

lemma stamped_filename_foo:
  "stamped_filename ''foo'' d = ''foo_'' @ strftime_stamp d @ ''.json''"
  by (simp add: stamped_filename_def)

lemma strftime_stamp_noon: "strftime_stamp noon = ''20240309_120005''"
  by (simp add: strftime_stamp_def noon_def pad2_def pad4_def digit_def)

section \<open>Saving and loading\<close>

lemma stamped_filename_inj:
  assumes "valid_datetime d1" and "valid_datetime d2"
    and "stamped_filename filename d1 = stamped_filename filename d2"
  shows "year d1 = year d2 \<and> month d1 = month d2 \<and> day d1 = day d2 \<and>
         hour d1 = hour d2 \<and> minute d1 = minute d2 \<and> second d1 = second d2"
proof -
  from assms(3) have "strftime_stamp d1 = strftime_stamp d2"
    by (simp add: stamped_filename_def)
  with assms(1,2) show ?thesis by (rule strftime_stamp_inj)
qed

lemma json_serialisable_json_data:
  "json_serialisable (json_data export_date n data) = json_serialisable data"
  by (simp add: json_data_def)

lemma save_as_json_ok:
  assumes "write_error e (stamped_filename filename (clock e (ticks w))) = None"
    and "py_len data = Inr n"
    and "json_serialisable data"
  shows "save_as_json e data filename w =
     (Inr (stamped_filename filename (clock e (ticks w))),
      w\<lparr>ticks := ticks w + 2,
         opens := opens w @ [(stamped_filename filename (clock e (ticks w)), Write_mode)],
         files := (files w)(stamped_filename filename (clock e (ticks w)) \<mapsto>
                     Json_text (json_data (isoformat (clock e (ticks w + 1))) n data)),
         log := log w @ [Info_saved (stamped_filename filename (clock e (ticks w)))]\<rparr>)"
  using assms
  by (simp add: save_as_json_def save_steps_def Let_def json_serialisable_json_data)

lemma save_as_json_returns_path:
  "fst (save_as_json e data filename w) = Inr p \<Longrightarrow>
   p = stamped_filename filename (clock e (ticks w))"
  by (auto simp: save_as_json_def save_steps_def Let_def
      split: option.splits sum.splits if_splits)

lemma save_as_json_opens:
  "opens (snd (save_as_json e data filename w)) =
     opens w @ [(stamped_filename filename (clock e (ticks w)), Write_mode)]"
  by (auto simp: save_as_json_def save_steps_def Let_def
      split: option.splits sum.splits if_splits)

lemma save_as_json_files_elsewhere:
  "q \<noteq> stamped_filename filename (clock e (ticks w)) \<Longrightarrow>
   files (snd (save_as_json e data filename w)) q = files w q"
  by (auto simp: save_as_json_def save_steps_def Let_def
      split: option.splits sum.splits if_splits)

lemma json_serialisable_scenario_record: "json_serialisable (PList [scenario_record])"
  by (simp add: scenario_record_def user_data_def fingerprint_entry_def scenario_users_def
      scenario_templates_def)

text \<open>
  Claim C7, as the code has it. For a record set that json can serialise and the base path
  \<^verbatim>\<open>foo\<close>, when the stamped file can be opened, the save writes the envelope to the
  path \<^verbatim>\<open>foo_\<close>, eight digits, an underscore, six digits and \<^verbatim>\<open>.json\<close>, the digits
  being the time stamp of the clock, and returns that path. It opens and changes no other
  file. The path of any export stamped with a different second is a different path, so
  such an export is left as it was.
\<close>

theorem save_as_json_file_naming:
  assumes "json_serialisable (PList R)"
    and "write_error e (stamped_filename ''foo'' (clock e (ticks w))) = None"
  shows "\<exists>ymd hms w'.
     save_as_json e (PList R) ''foo'' w = (Inr (''foo_'' @ ymd @ ''_'' @ hms @ ''.json''), w') \<and>
     strftime_stamp (clock e (ticks w)) = ymd @ ''_'' @ hms \<and>
     length ymd = 8 \<and> length hms = 6 \<and>
     set ymd \<subseteq> set ''0123456789'' \<and> set hms \<subseteq> set ''0123456789'' \<and>
     opens w' = opens w @ [(''foo_'' @ ymd @ ''_'' @ hms @ ''.json'', Write_mode)] \<and>
     files w' (''foo_'' @ ymd @ ''_'' @ hms @ ''.json'') =
       Some (Json_text (json_data (isoformat (clock e (ticks w + 1))) (length R) (PList R))) \<and>
     (\<forall>q. q \<noteq> ''foo_'' @ ymd @ ''_'' @ hms @ ''.json'' \<longrightarrow> files w' q = files w q) \<and>
     (\<forall>d. valid_datetime d \<and> valid_datetime (clock e (ticks w)) \<and>
          \<not> same_second d (clock e (ticks w)) \<longrightarrow>
          stamped_filename ''foo'' d \<noteq> ''foo_'' @ ymd @ ''_'' @ hms @ ''.json'' \<and>
          files w' (stamped_filename ''foo'' d) = files w (stamped_filename ''foo'' d))"
proof -
  let ?now = "clock e (ticks w)"
  let ?ymd = "pad4 (year ?now) @ pad2 (month ?now) @ pad2 (day ?now)"
  let ?hms = "pad2 (hour ?now) @ pad2 (minute ?now) @ pad2 (second ?now)"
  let ?path = "''foo_'' @ ?ymd @ ''_'' @ ?hms @ ''.json''"
  let ?doc = "json_data (isoformat (clock e (ticks w + 1))) (length R) (PList R)"
  let ?w' = "w\<lparr>ticks := ticks w + 2, opens := opens w @ [(?path, Write_mode)],
                files := (files w)(?path \<mapsto> Json_text ?doc),
                log := log w @ [Info_saved ?path]\<rparr>"
  from strftime_stamp_form [of ?now]
  have stamp: "strftime_stamp ?now = ?ymd @ ''_'' @ ?hms"
    and form: "length ?ymd = 8" "length ?hms = 6"
      "set ?ymd \<subseteq> set ''0123456789''" "set ?hms \<subseteq> set ''0123456789''"
    by blast+
  have path: "stamped_filename ''foo'' ?now = ?path"
    using stamp by (simp add: stamped_filename_foo)
  have len: "py_len (PList R) = Inr (length R)" by simp
  have run: "save_as_json e (PList R) ''foo'' w = (Inr ?path, ?w')"
    using save_as_json_ok [OF assms(2) len assms(1)] path by simp
  have opens: "opens ?w' = opens w @ [(?path, Write_mode)]" by simp
  have own: "files ?w' ?path = Some (Json_text ?doc)" by simp
  have others: "\<forall>q. q \<noteq> ?path \<longrightarrow> files ?w' q = files w q" by simp
  have earlier: "\<forall>d. valid_datetime d \<and> valid_datetime ?now \<and> \<not> same_second d ?now \<longrightarrow>
          stamped_filename ''foo'' d \<noteq> ?path \<and>
          files ?w' (stamped_filename ''foo'' d) = files w (stamped_filename ''foo'' d)"
  proof (intro allI impI)
    fix d assume h: "valid_datetime d \<and> valid_datetime ?now \<and> \<not> same_second d ?now"
    then have "stamped_filename ''foo'' d \<noteq> stamped_filename ''foo'' ?now"
      using stamped_filename_inj [of d ?now "''foo''"] by (auto simp: same_second_def)
    then have "stamped_filename ''foo'' d \<noteq> ?path" using path by simp
    then show "stamped_filename ''foo'' d \<noteq> ?path \<and>
          files ?w' (stamped_filename ''foo'' d) = files w (stamped_filename ''foo'' d)"
      using others by blast
  qed
  from run stamp form opens own others earlier show ?thesis by blast
qed

text \<open>
  Two saves on a clock that has moved on by two seconds: the second returns the path of
  12:00:07 and leaves the export of 12:00:05 as the first save wrote it.
\<close>

theorem save_as_json_file_naming_witness:
  "fst (save_as_json (steady_device [] []) (PList [scenario_record]) ''foo''
          (snd (save_as_json (steady_device [] []) (PList [scenario_record]) ''foo'' world0)))
     = Inr ''foo_20240309_120007.json'' \<and>
   files (snd (save_as_json (steady_device [] []) (PList [scenario_record]) ''foo''
                 (snd (save_as_json (steady_device [] []) (PList [scenario_record]) ''foo'' world0))))
         ''foo_20240309_120005.json''
     = files (snd (save_as_json (steady_device [] []) (PList [scenario_record]) ''foo'' world0))
         ''foo_20240309_120005.json''"
proof -
  let ?e = "steady_device [] []"
  let ?w1 = "snd (save_as_json ?e (PList [scenario_record]) ''foo'' world0)"
  have len: "py_len (PList [scenario_record]) = Inr 1" by simp
  have a0: "write_error ?e (stamped_filename ''foo'' (clock ?e (ticks world0))) = None"
    by (simp add: steady_device_def)
  have ticks: "ticks ?w1 = 2"
    using save_as_json_ok [OF a0 len json_serialisable_scenario_record]
    by (simp add: world0_def)
  have now: "clock ?e (ticks ?w1) = noon\<lparr>second := 7\<rparr>"
    by (simp only: ticks) (simp add: steady_device_def noon_def)
  have stamp: "strftime_stamp (noon\<lparr>second := 7\<rparr>) = ''20240309_120007''"
    by (simp add: strftime_stamp_def noon_def pad2_def pad4_def digit_def)
  have a: "write_error ?e (stamped_filename ''foo'' (clock ?e (ticks ?w1))) = None"
    by (simp only: now) (simp add: steady_device_def)
  have v: "valid_datetime noon" "valid_datetime (noon\<lparr>second := 7\<rparr>)"
    "\<not> same_second noon (noon\<lparr>second := 7\<rparr>)"
    by (simp_all add: valid_datetime_def same_second_def noon_def)
  have p5: "stamped_filename ''foo'' noon = ''foo_20240309_120005.json''"
    by (simp add: stamped_filename_def strftime_stamp_noon)
  from save_as_json_file_naming [OF json_serialisable_scenario_record a] obtain ymd hms w'
    where run: "save_as_json ?e (PList [scenario_record]) ''foo'' ?w1
                  = (Inr (''foo_'' @ ymd @ ''_'' @ hms @ ''.json''), w')"
      and st: "strftime_stamp (clock ?e (ticks ?w1)) = ymd @ ''_'' @ hms"
      and keep: "\<forall>d. valid_datetime d \<and> valid_datetime (clock ?e (ticks ?w1)) \<and>
          \<not> same_second d (clock ?e (ticks ?w1)) \<longrightarrow>
          stamped_filename ''foo'' d \<noteq> ''foo_'' @ ymd @ ''_'' @ hms @ ''.json'' \<and>
          files w' (stamped_filename ''foo'' d) = files ?w1 (stamped_filename ''foo'' d)"
    by blast
  have "''foo_'' @ ymd @ ''_'' @ hms @ ''.json'' = ''foo_'' @ (ymd @ ''_'' @ hms) @ ''.json''"
    by simp
  also have "\<dots> = ''foo_'' @ ''20240309_120007'' @ ''.json''"
    using st now stamp by (simp only:)
  finally have path: "''foo_'' @ ymd @ ''_'' @ hms @ ''.json'' = ''foo_20240309_120007.json''"
    by simp
  from keep [rule_format, of noon] v now
  have "files w' (stamped_filename ''foo'' noon) = files ?w1 (stamped_filename ''foo'' noon)"
    by simp
  with run path p5 show ?thesis
    by (simp only: fst_conv snd_conv)
qed

text \<open>
  A record set with a bytes payload: the save raises and returns no path. And two saves
  within one second: the second returns the same path and replaces the first export.
\<close>

theorem save_as_json_file_naming_counterexample:
  "fst (save_as_json (steady_device [] []) (PList [bytes_record]) ''foo'' world0) = Inl TypeError \<and>
   fst (save_as_json stopped_clock_device (PList []) ''foo''
          (snd (save_as_json stopped_clock_device (PList [scenario_record]) ''foo'' world0)))
     = Inr ''foo_20240309_120005.json'' \<and>
   files (snd (save_as_json stopped_clock_device (PList [scenario_record]) ''foo'' world0))
         ''foo_20240309_120005.json''
     = Some (Json_text (json_data ''2024-03-09T12:00:05'' 1 (PList [scenario_record]))) \<and>
   files (snd (save_as_json stopped_clock_device (PList []) ''foo''
                 (snd (save_as_json stopped_clock_device (PList [scenario_record]) ''foo'' world0))))
         ''foo_20240309_120005.json''
     = Some (Json_text (json_data ''2024-03-09T12:00:05'' 0 (PList [])))"
proof -
  let ?s = stopped_clock_device
  have p: "stamped_filename ''foo'' noon = ''foo_20240309_120005.json''"
    by (simp add: stamped_filename_def strftime_stamp_noon)
  have iso: "isoformat noon = ''2024-03-09T12:00:05''"
    by (simp add: isoformat_def noon_def pad2_def pad4_def digit_def)
  have clk: "clock ?s n = noon" for n
    by (simp add: stopped_clock_device_def steady_device_def)
  have err: "write_error ?s q = None" for q
    by (simp add: stopped_clock_device_def steady_device_def)
  have bytes: "fst (save_as_json (steady_device [] []) (PList [bytes_record]) ''foo'' world0)
      = Inl TypeError"
    by (simp add: save_as_json_def save_steps_def Let_def steady_device_def
        world0_def bytes_record_def user_data_def fingerprint_entry_def json_data_def)
  have l1: "py_len (PList [scenario_record]) = Inr 1" and l0: "py_len (PList []) = Inr 0"
    by simp_all
  have s0: "json_serialisable (PList [])" by simp
  note first = save_as_json_ok [where e = ?s and filename = "''foo''" and w = world0,
      OF err l1 json_serialisable_scenario_record]
  let ?w1 = "snd (save_as_json ?s (PList [scenario_record]) ''foo'' world0)"
  note second = save_as_json_ok [where e = ?s and filename = "''foo''" and w = ?w1,
      OF err l0 s0]
  have f1: "files ?w1 ''foo_20240309_120005.json''
      = Some (Json_text (json_data ''2024-03-09T12:00:05'' 1 (PList [scenario_record])))"
    by (simp add: first clk p iso)
  have r2: "fst (save_as_json ?s (PList []) ''foo'' ?w1) = Inr ''foo_20240309_120005.json''"
    by (simp add: second clk p)
  have f2: "files (snd (save_as_json ?s (PList []) ''foo'' ?w1)) ''foo_20240309_120005.json''
      = Some (Json_text (json_data ''2024-03-09T12:00:05'' 0 (PList [])))"
    by (simp add: second clk p iso)
  from bytes r2 f1 f2 show ?thesis by blast
qed

text \<open>
  Claim C3, as the code has it. For every record set that json can serialise, and a base
  path whose stamped file can be opened, the save returns the path, and loading that file
  yields the envelope: the records under \<open>fingerprints\<close>, their number under
  \<open>total_records\<close> and the time of the export under \<open>export_date\<close>, and nothing else.
\<close>

theorem save_load_round_trip:
  assumes "json_serialisable (PList R)"
    and "write_error e (stamped_filename p (clock e (ticks w))) = None"
  shows "\<exists>path w' doc.
     save_as_json e (PList R) p w = (Inr path, w') \<and>
     fst (load_json path w') = Inr doc \<and>
     doc = json_data (isoformat (clock e (ticks w + 1))) (length R) (PList R) \<and>
     py_getitem doc ''fingerprints'' = Inr (PList R) \<and>
     py_getitem doc ''total_records'' = Inr (PInt (int (length R))) \<and>
     py_getitem doc ''export_date'' = Inr (PStr (isoformat (clock e (ticks w + 1))))"
proof -
  have len: "py_len (PList R) = Inr (length R)" by simp
  let ?path = "stamped_filename p (clock e (ticks w))"
  let ?doc = "json_data (isoformat (clock e (ticks w + 1))) (length R) (PList R)"
  let ?w' = "w\<lparr>ticks := ticks w + 2, opens := opens w @ [(?path, Write_mode)],
                files := (files w)(?path \<mapsto> Json_text ?doc),
                log := log w @ [Info_saved ?path]\<rparr>"
  have run: "save_as_json e (PList R) p w = (Inr ?path, ?w')"
    by (rule save_as_json_ok [OF assms(2) len assms(1)])
  have load: "fst (load_json ?path ?w') = Inr ?doc"
    by (simp add: load_json_def)
  have keys: "py_getitem ?doc ''fingerprints'' = Inr (PList R)"
    "py_getitem ?doc ''total_records'' = Inr (PInt (int (length R)))"
    "py_getitem ?doc ''export_date'' = Inr (PStr (isoformat (clock e (ticks w + 1))))"
    by (simp_all add: json_data_def)
  from run load keys show ?thesis by blast
qed

text \<open>The record of the scenario's first user, saved and loaded again.\<close>

theorem save_load_round_trip_witness:
  "fst (load_json
          (projr (fst (save_as_json (steady_device [] []) (PList [scenario_record])
                         ''fingerprint_data'' world0)))
          (snd (save_as_json (steady_device [] []) (PList [scenario_record])
                  ''fingerprint_data'' world0)))
     = Inr (json_data ''2024-03-09T12:00:06'' 1 (PList [scenario_record]))"
proof -
  have a: "json_serialisable (PList [scenario_record])"
    by (simp add: scenario_record_def user_data_def fingerprint_entry_def scenario_users_def
        scenario_templates_def)
  have b: "write_error (steady_device [] [])
             (stamped_filename ''fingerprint_data'' (clock (steady_device [] []) (ticks world0))) = None"
    by (simp add: steady_device_def)
  have c: "isoformat (clock (steady_device [] []) (ticks world0 + 1)) = ''2024-03-09T12:00:06''"
    by (simp add: steady_device_def world0_def noon_def isoformat_def pad2_def pad4_def digit_def)
  from save_load_round_trip [OF a b] c show ?thesis
    by auto
qed

text \<open>
  A record whose template payload is a bytes object cannot be saved: \<^verbatim>\<open>json.dump\<close>
  raises \<^verbatim>\<open>TypeError\<close>, and the file left behind does not parse.
\<close>

theorem save_load_round_trip_counterexample:
  "fst (save_as_json (steady_device [] []) (PList [bytes_record]) ''fingerprint_data'' world0)
     = Inl TypeError \<and>
   fst (load_json (stamped_filename ''fingerprint_data'' noon)
          (snd (save_as_json (steady_device [] []) (PList [bytes_record]) ''fingerprint_data''
                  world0)))
     = Inl JSONDecodeError"
  by (simp add: save_as_json_def save_steps_def Let_def load_json_def steady_device_def
      world0_def bytes_record_def user_data_def fingerprint_entry_def json_data_def)

section \<open>The command line with action both\<close>

lemma read_fields_keeps:
  "read_fields e kcs w = (r, w') \<Longrightarrow>
   files w' = files w \<and> opens w' = opens w \<and> ticks w' = ticks w"
proof (induction kcs arbitrary: w r w')
  case Nil
  then show ?case by auto
next
  case (Cons kc kcs)
  show ?case
  proof (cases "info_reply e (calls w) (snd kc)")
    case (Inl ex)
    with Cons.prems show ?thesis by auto
  next
    case (Inr v)
    obtain r1 w1 where run: "read_fields e kcs (w\<lparr>calls := calls w @ [snd kc]\<rparr>) = (r1, w1)"
      by (cases "read_fields e kcs (w\<lparr>calls := calls w @ [snd kc]\<rparr>)")
    from Cons.IH [OF run] have "files w1 = files w \<and> opens w1 = opens w \<and> ticks w1 = ticks w"
      by simp
    with Cons.prems Inr run show ?thesis
      by (cases r1) auto
  qed
qed

lemma connect_to_device_keeps:
  assumes "connect_to_device e ip_addr port_no w = (r, w')"
  shows "files w' = files w \<and> opens w' = opens w \<and> ticks w' = ticks w"
proof -
  let ?w0 = "w\<lparr>log := log w @ [Info_connecting ip_addr port_no]\<rparr>"
  obtain r1 w1 where run: "read_fields e device_info_fields ?w0 = (r1, w1)"
    by (cases "read_fields e device_info_fields ?w0")
  from read_fields_keeps [OF run]
  have "files w1 = files w \<and> opens w1 = opens w \<and> ticks w1 = ticks w"
    by simp
  with assms run show ?thesis
    by (cases r1; cases "connect_reply e")
       (auto simp: connect_to_device_def get_device_info_def Let_def)
qed

lemma download_users_keeps:
  "download_users e us data w = (r, w') \<Longrightarrow>
   files w' = files w \<and> opens w' = opens w \<and> ticks w' = ticks w"
proof (induction us arbitrary: data w)
  case Nil
  then show ?case by auto
next
  case (Cons u us)
  show ?case
  proof (cases "templates_reply e (calls w)")
    case (Inl ex)
    with Cons.prems show ?thesis by auto
  next
    case (Inr ts)
    with Cons.prems have "download_users e us (data @ [user_data u (append_matching u ts [])])
       (w\<lparr>calls := calls w @ [Get_templates]\<rparr>) = (r, w')"
      by simp
    from Cons.IH [OF this] show ?thesis by simp
  qed
qed

lemma download_raw_data_keeps:
  assumes "download_raw_data e w = (r, w')"
  shows "files w' = files w \<and> opens w' = opens w \<and> ticks w' = ticks w"
proof (cases "users_reply e (calls w)")
  case (Inl ex)
  with assms show ?thesis by (auto simp: download_raw_data_def)
next
  case (Inr us)
  let ?w1 = "w\<lparr>calls := calls w @ [Get_users], log := log w @ [Info_found_users (length us)]\<rparr>"
  obtain r1 w1 where run: "download_users e us [] ?w1 = (r1, w1)"
    by (cases "download_users e us [] ?w1")
  from download_users_keeps [OF run]
  have "files w1 = files w \<and> opens w1 = opens w \<and> ticks w1 = ticks w"
    by simp
  with assms Inr run show ?thesis
    by (cases r1) (auto simp: download_raw_data_def)
qed

lemma upload_loop_keeps:
  "upload_loop e items w = (r, w') \<Longrightarrow> files w' = files w \<and> opens w' = opens w"
proof (induction items arbitrary: w)
  case Nil
  then show ?case by auto
next
  case (Cons item items)
  obtain x w1 where t: "try_upload e item w = (x, w1)"
    by (cases "try_upload e item w")
  then have k1: "files w1 = files w \<and> opens w1 = opens w"
    by (auto simp: try_upload_def split: sum.splits)
  show ?case
  proof (cases x)
    case None
    with Cons.prems t have "upload_loop e items w1 = (r, w')" by simp
    from Cons.IH [OF this] k1 show ?thesis by simp
  next
    case (Some ex)
    show ?thesis
    proof (cases "py_getitem item ''user_id''")
      case (Inl ex2)
      with Cons.prems t Some k1 show ?thesis by auto
    next
      case (Inr u)
      with Cons.prems t Some
      have "upload_loop e items (w1\<lparr>log := log w1 @ [Warn_upload_failed u ex]\<rparr>) = (r, w')"
        by simp
      from Cons.IH [OF this] k1 show ?thesis by simp
    qed
  qed
qed

lemma upload_data_back_keeps:
  assumes "upload_data_back e data w = (r, w')"
  shows "files w' = files w \<and> opens w' = opens w"
proof -
  obtain r1 w1 where s: "upload_steps e data w = (r1, w1)"
    by (cases "upload_steps e data w")
  have "files w1 = files w \<and> opens w1 = opens w"
  proof (cases "py_get data ''fingerprints'' data")
    case (Inl ex)
    with s show ?thesis by (auto simp: upload_steps_def)
  next
    case fp: (Inr fingerprints)
    show ?thesis
    proof (cases "py_len fingerprints")
      case (Inl ex)
      with s fp show ?thesis by (auto simp: upload_steps_def)
    next
      case n: (Inr n)
      show ?thesis
      proof (cases "py_iter fingerprints")
        case (Inl ex)
        with s fp n show ?thesis by (auto simp: upload_steps_def)
      next
        case (Inr items)
        let ?w0 = "w\<lparr>log := log w @ [Info_preparing_upload n]\<rparr>"
        obtain r2 w2 where l: "upload_loop e items ?w0 = (r2, w2)"
          by (cases "upload_loop e items ?w0")
        from upload_loop_keeps [OF l] have "files w2 = files w \<and> opens w2 = opens w"
          by simp
        with s fp n Inr l show ?thesis
          by (cases r2) (auto simp: upload_steps_def)
      qed
    qed
  qed
  with assms s show ?thesis
    by (cases r1) (auto simp: upload_data_back_def)
qed

lemma download_phase_both:
  assumes "action a = Both" and "download_phase e a w = (r, w')"
  shows "files w' (file' a) = files w (file' a) \<and>
         (opens w' = opens w \<or>
          opens w' = opens w @ [(stamped_filename (file' a) (clock e (ticks w)), Write_mode)]) \<and>
         (r = Inr () \<longrightarrow>
          opens w' = opens w @ [(stamped_filename (file' a) (clock e (ticks w)), Write_mode)])"
proof -
  obtain r1 w1 where d: "download_raw_data e w = (r1, w1)"
    by (cases "download_raw_data e w")
  from download_raw_data_keeps [OF d]
  have k1: "files w1 = files w" "opens w1 = opens w" "ticks w1 = ticks w"
    by simp_all
  show ?thesis
  proof (cases r1)
    case (Inl ex)
    with assms d k1 show ?thesis by (auto simp: download_phase_def)
  next
    case (Inr data)
    obtain r2 w2 where s: "save_as_json e (PList data) (file' a) w1 = (r2, w2)"
      by (cases "save_as_json e (PList data) (file' a) w1")
    have "opens w2 = opens w1 @ [(stamped_filename (file' a) (clock e (ticks w1)), Write_mode)]"
      using save_as_json_opens [of e "PList data" "file' a" w1] s by simp
    moreover have "files w2 (file' a) = files w1 (file' a)"
      using save_as_json_files_elsewhere [of "file' a" "file' a" e w1 "PList data"]
        stamped_filename_neq [of "file' a" "clock e (ticks w1)"] s
      by simp
    ultimately show ?thesis
      using assms d Inr s k1 by (cases r2) (auto simp: download_phase_def)
  qed
qed

lemma upload_phase_both:
  assumes "action a = Both" and "upload_phase e a w = (r, w')"
  shows "opens w' = opens w @ [(file' a, Read_mode)] \<and>
         (files w (file' a) = None \<longrightarrow> r = Inl FileNotFoundError) \<and>
         (r = Inr () \<longrightarrow> files w (file' a) \<noteq> None)"
proof (cases "files w (file' a)")
  case None
  with assms show ?thesis
    by (auto simp: upload_phase_def load_json_def Let_def)
next
  case (Some c)
  show ?thesis
  proof (cases c)
    case Malformed_text
    with assms Some show ?thesis
      by (auto simp: upload_phase_def load_json_def Let_def)
  next
    case (Json_text v)
    with assms Some
    have "upload_data_back e v (w\<lparr>opens := opens w @ [(file' a, Read_mode)]\<rparr>) = (r, w')"
      by (simp add: upload_phase_def load_json_def Let_def)
    from upload_data_back_keeps [OF this] Some show ?thesis by simp
  qed
qed

lemma disconnect_keeps: "opens (snd (disconnect e w)) = opens w"
  by (simp add: disconnect_def split: option.splits)

text \<open>
  Claim C10. With \<^verbatim>\<open>--action both\<close> the path the download phase writes is the stamped
  one, which is never the base path given by \<^verbatim>\<open>--file\<close>; the only path the run opens
  for reading is that base path. So a run that exits with code 0 has read a file that was
  at the base path before the run began, and when there is no file at the base path the
  run exits with code 1.
\<close>

theorem main_both_reads_base_path:
  assumes "action a = Both"
  shows "stamped_filename (file' a) (clock e (ticks w)) \<noteq> file' a \<and>
    (opens (snd (main_cli e a w)) = opens w \<or>
     opens (snd (main_cli e a w)) =
       opens w @ [(stamped_filename (file' a) (clock e (ticks w)), Write_mode)] \<or>
     opens (snd (main_cli e a w)) =
       opens w @ [(stamped_filename (file' a) (clock e (ticks w)), Write_mode),
                  (file' a, Read_mode)]) \<and>
    (fst (main_cli e a w) = 0 \<longrightarrow>
       opens (snd (main_cli e a w)) =
         opens w @ [(stamped_filename (file' a) (clock e (ticks w)), Write_mode),
                    (file' a, Read_mode)] \<and>
       files w (file' a) \<noteq> None) \<and>
    (files w (file' a) = None \<longrightarrow> fst (main_cli e a w) = 1)"
proof -
  let ?P = "stamped_filename (file' a) (clock e (ticks w))"
  have neq: "?P \<noteq> file' a" by (rule stamped_filename_neq)
  obtain r1 w1 where c: "connect_to_device e (ip a) (port a) w = (r1, w1)"
    by (cases "connect_to_device e (ip a) (port a) w")
  from connect_to_device_keeps [OF c]
  have k1: "files w1 = files w" "opens w1 = opens w" "ticks w1 = ticks w"
    by simp_all
  obtain r2 w2 where d: "download_phase e a w1 = (r2, w2)"
    by (cases "download_phase e a w1")
  from download_phase_both [OF assms d] k1
  have k2: "files w2 (file' a) = files w (file' a)"
    "opens w2 = opens w \<or> opens w2 = opens w @ [(?P, Write_mode)]"
    "r2 = Inr () \<longrightarrow> opens w2 = opens w @ [(?P, Write_mode)]"
    by simp_all
  obtain r3 w3 where u: "upload_phase e a w2 = (r3, w3)"
    by (cases "upload_phase e a w2")
  from upload_phase_both [OF assms u] k2(1)
  have k3: "opens w3 = opens w2 @ [(file' a, Read_mode)]"
    "files w (file' a) = None \<longrightarrow> r3 = Inl FileNotFoundError"
    "r3 = Inr () \<longrightarrow> files w (file' a) \<noteq> None"
    by simp_all
  obtain r4 w4 where x: "disconnect e w3 = (r4, w4)"
    by (cases "disconnect e w3")
  with disconnect_keeps [of e w3] have k4: "opens w4 = opens w3" by simp
  show ?thesis
  proof (cases r1)
    case (Inl ex)
    with c k1 neq show ?thesis by (simp add: main_cli_def cli_steps_def)
  next
    case r1: (Inr u1)
    show ?thesis
    proof (cases r2)
      case (Inl ex)
      with c r1 d k2 neq show ?thesis by (auto simp: main_cli_def cli_steps_def)
    next
      case r2: (Inr u2)
      show ?thesis
      proof (cases r3)
        case (Inl ex)
        with c r1 d r2 u k2 k3 neq show ?thesis by (auto simp: main_cli_def cli_steps_def)
      next
        case r3: (Inr u3)
        with c r1 d r2 u x k2 k3 k4 neq show ?thesis
          by (cases r4) (auto simp: main_cli_def cli_steps_def)
      qed
    qed
  qed
qed

text \<open>
  A run on the scenario's device with no file at \<^verbatim>\<open>fingerprint_data\<close>: the export is
  written to the stamped path, the base path is opened for reading, and the exit code is 1.
\<close>

theorem main_both_reads_base_path_witness:
  "fst (main_cli (steady_device scenario_users scenario_templates) both_args world0) = 1 \<and>
   opens (snd (main_cli (steady_device scenario_users scenario_templates) both_args world0)) =
     [(''fingerprint_data_20240309_120005.json'', Write_mode), (''fingerprint_data'', Read_mode)]"
proof -
  let ?e = "steady_device scenario_users scenario_templates"
  have a: "action both_args = Both" by (simp add: both_args_def)
  have b: "files world0 (file' both_args) = None" by (simp add: world0_def)
  have now: "clock ?e (ticks world0) = noon"
    by (simp add: steady_device_def world0_def noon_def)
  have p: "stamped_filename (file' both_args) noon = ''fingerprint_data_20240309_120005.json''"
    by (simp add: stamped_filename_def strftime_stamp_noon both_args_def)
  have o: "opens (snd (main_cli ?e both_args world0)) =
     [(''fingerprint_data_20240309_120005.json'', Write_mode), (''fingerprint_data'', Read_mode)]"
    by (simp add: main_cli_def cli_steps_def download_phase_def upload_phase_def
        connect_to_device_def get_device_info_def device_info_fields_def
        download_raw_data_def save_as_json_def save_steps_def load_json_def Let_def
        steady_device_def scenario_users_def scenario_templates_def both_args_def world0_def
        user_data_def fingerprint_entry_def json_data_def stamped_filename_def
        strftime_stamp_def noon_def pad2_def pad4_def digit_def)
  from main_both_reads_base_path [OF a, of ?e world0] b o show ?thesis
    by simp
qed

end
